theory Spec2Isabelle
  imports Main "HOL-Library.Sublist"
begin

section \<open>Strings and JavaScript values\<close>


definition upperAZ :: string where
  "upperAZ = ''ABCDEFGHIJKLMNOPQRSTUVWXYZ''"

definition lowerAZ :: string where
  "lowerAZ = ''abcdefghijklmnopqrstuvwxyz''"

definition toLowerChar :: "char \<Rightarrow> char" where
  "toLowerChar c = (case map_of (zip upperAZ lowerAZ) c of None \<Rightarrow> c | Some d \<Rightarrow> d)"

definition toUpperChar :: "char \<Rightarrow> char" where
  "toUpperChar c = (case map_of (zip lowerAZ upperAZ) c of None \<Rightarrow> c | Some d \<Rightarrow> d)"

definition toLowerCase :: "string \<Rightarrow> string" where
  "toLowerCase s = map toLowerChar s"

definition isSpace :: "char \<Rightarrow> bool" where
  "isSpace c = (c \<in> set [CHR 0x09, CHR 0x0A, CHR 0x0B, CHR 0x0C, CHR 0x0D, CHR '' ''])"

definition trim :: "string \<Rightarrow> string" where
  "trim s = rev (dropWhile isSpace (rev (dropWhile isSpace s)))"

text \<open>\<open>s.includes(w)\<close>: \<open>w\<close> occurs in \<open>s\<close> as a contiguous substring.\<close>

fun str_includes :: "string \<Rightarrow> string \<Rightarrow> bool" where
  "str_includes [] w = (w = [])"
| "str_includes (c # cs) w = (prefix w (c # cs) \<or> str_includes cs w)"

text \<open>\<open>s.split(sep)\<close> where the separator is one character out of a class.\<close>

fun split_on :: "(char \<Rightarrow> bool) \<Rightarrow> string \<Rightarrow> string list" where
  "split_on sep [] = [[]]"
| "split_on sep (c # cs) =
     (if sep c then [] # split_on sep cs
      else (case split_on sep cs of
              [] \<Rightarrow> [[c]]
            | w # ws \<Rightarrow> (c # w) # ws))"

fun join :: "string \<Rightarrow> string list \<Rightarrow> string" where
  "join sep [] = []"
| "join sep [w] = w"
| "join sep (w # ws) = w @ sep @ join sep ws"

text \<open>
  \<open>s.split(/\.\s+/)\<close>: the separators are the dots followed by white space, each taken
  with the whole run of white space after it.
\<close>

function split_sentences :: "string \<Rightarrow> string list" where
  "split_sentences [] = [[]]"
| "split_sentences (c # cs) =
     (if c = CHR ''.'' \<and> cs \<noteq> [] \<and> isSpace (hd cs)
      then [] # split_sentences (dropWhile isSpace cs)
      else (case split_sentences cs of
              [] \<Rightarrow> [[c]]
            | w # ws \<Rightarrow> (c # w) # ws))"
  by pat_completeness auto
termination
  by (relation "measure length") (auto simp: length_dropWhile_le less_Suc_eq_le)

text \<open>
  A value read out of an object literal by a computed key: \<open>undefined\<close>, a string of the
  table, or an object inherited from \<open>Object.prototype\<close> (\<open>table['constructor']\<close> is the
  function \<open>Object\<close>), which is truthy and is not a string.
\<close>

datatype jsval = JUndefined | JStr string | JObj string

definition Object_prototype_names :: "string list" where
  "Object_prototype_names =
     [''constructor'', ''__proto__'', ''hasOwnProperty'', ''isPrototypeOf'',
      ''propertyIsEnumerable'', ''toLocaleString'', ''toString'', ''valueOf'',
      ''__defineGetter__'', ''__defineSetter__'', ''__lookupGetter__'', ''__lookupSetter__'']"

definition js_index :: "(string \<times> string) list \<Rightarrow> string \<Rightarrow> jsval" where
  "js_index tbl k =
     (case map_of tbl k of
        Some v \<Rightarrow> JStr v
      | None \<Rightarrow> if k \<in> set Object_prototype_names then JObj k else JUndefined)"

fun truthy :: "jsval \<Rightarrow> bool" where
  "truthy JUndefined = False"
| "truthy (JStr s) = (s \<noteq> [])"
| "truthy (JObj n) = True"

text \<open>\<open>a || b\<close> on optional strings: \<open>undefined\<close> and \<open>''\<close> are falsy.\<close>

definition str_or :: "string option \<Rightarrow> string \<Rightarrow> string" where
  "str_or a b = (case a of None \<Rightarrow> b | Some s \<Rightarrow> if s = [] then b else s)"

section \<open>Classification tables (ai\_service.js)\<close>

definition DOMAIN_CATEGORY_MAP :: "(string \<times> string) list" where
  "DOMAIN_CATEGORY_MAP =
     [(''cloudflare.com'', ''devops''), (''dash.cloudflare.com'', ''devops''),
      (''aws.amazon.com'', ''cloud''), (''console.aws.amazon.com'', ''cloud''),
      (''amazonaws.com'', ''cloud''), (''oraclecloud.com'', ''cloud''),
      (''octopus.do'', ''uxui''), (''figma.com'', ''uxui''), (''ahrefs.com'', ''seo''),
      (''gtmetrix.com'', ''qa''), (''pagespeed.web.dev'', ''qa''),
      (''campaignmonitor.com'', ''docs''), (''docs.google.com'', ''docs''),
      (''google.com'', ''docs''), (''youtube.com'', ''media''), (''ssyoutube.com'', ''media''),
      (''codepen.io'', ''frontend''), (''cssgradient.io'', ''frontend''),
      (''vercel.com'', ''frontend''), (''github.com'', ''programming''),
      (''gitlab.com'', ''programming''), (''stackoverflow.com'', ''programming''),
      (''mailtrap.io'', ''devops''), (''grafana.com'', ''devops''),
      (''screamingfrog.co.uk'', ''seo''), (''totalworkplace.sharepoint.com'', ''docs''),
      (''office.com'', ''docs''), (''sharepoint.com'', ''docs''),
      (''onedrive.live.com'', ''docs''), (''git-codecommit.amazonaws.com'', ''cloud''),
      (''codecommit.amazonaws.com'', ''cloud'')]"

definition GENERAL_CATEGORY_MAP :: "(string \<times> string) list" where
  "GENERAL_CATEGORY_MAP =
     [(''devops'', ''developer/devops''), (''cloud'', ''developer/cloud''),
      (''frontend'', ''developer/frontend''), (''backend'', ''developer/backend''),
      (''cms'', ''workspaces/cms''), (''programming'', ''developer/programming''),
      (''online-tools'', ''tools/free-tools''), (''uxui'', ''tools/design-tools''),
      (''seo'', ''tools/seo-tools''), (''qa'', ''developer/qa''), (''media'', ''media''),
      (''docs'', ''docs''), (''ecommerce'', ''shopping''), (''education'', ''learning''),
      (''other'', ''other''), (''workspaces/login-pages'', ''workspaces/login-pages'')]"

text \<open>
  \<open>GENERAL_CATEGORY_MAP[cat] || cat\<close>.  A non-string argument is turned into a property
  key by printing it; no printed function or object is a key of the table or of
  \<open>Object.prototype\<close>, so the argument comes back.
\<close>

fun mapToGeneral :: "jsval \<Rightarrow> jsval" where
  "mapToGeneral (JStr c) =
     (let g = js_index GENERAL_CATEGORY_MAP c in if truthy g then g else JStr c)"
| "mapToGeneral v = v"

text \<open>
  Each path hint is a case-insensitive regular expression that is an alternation of
  literal strings; \<open>rx.test(s)\<close> holds iff one of the literals occurs in \<open>s\<close>.
\<close>

definition PATH_HINTS :: "(string list \<times> string) list" where
  "PATH_HINTS =
     [([''/cp/dashboard'', ''/wp-admin'', ''cpsess'', '':2083'', ''/admin''], ''cms''),
      ([''/login'', ''signin'', ''sign-in'', ''auth''], ''workspaces/login-pages''),
      ([''/design'', ''/proto'', ''/node-id'', ''/canvas'', ''/drawio''], ''uxui''),
      ([''/seo'', ''/sitemap'', ''/lighthouse'', ''/analysis''], ''seo''),
      ([''/speed'', ''/load'', ''/perf'', ''/gtmetrix''], ''qa''),
      ([''/convert'', ''/resize'', ''/encode'', ''/decode''], ''online-tools''),
      ([''/media'', ''/video'', ''/download'', ''/mp4''], ''media''),
      ([''/docs'', ''/document'', ''/sheet'', ''/slides''], ''docs''),
      ([''/faq'', ''/guide'', ''/tutorial'', ''/help'', ''/knowledge''], ''docs''),
      ([''/graphql'', ''/api'', ''/rest''], ''programming''),
      ([''/shop'', ''/store'', ''/cart'', ''/product'', ''/products'', ''/checkout'',
        ''/ecommerce''], ''ecommerce''),
      ([''/course'', ''/courses'', ''/college'', ''/university'', ''/school'', ''/training'',
        ''/learn'', ''/education''], ''education'')]"

definition rx_test :: "string list \<Rightarrow> string \<Rightarrow> bool" where
  "rx_test alts s = list_ex (\<lambda>a. str_includes (toLowerCase s) a) alts"

definition KEYWORDS :: "(string \<times> string list) list" where
  "KEYWORDS =
     [(''devops'', [''cloudflare'', ''grafana'', ''mailtrap'', ''cicd'', ''pipeline'',
        ''monitoring'', ''kubernetes'', ''helm'', ''prometheus'', ''ansible'', ''nginx'',
        ''ingress'', ''dns'', ''waf'', ''ssl'', ''tls'', ''cert'']),
      (''cloud'', [''aws'', ''s3'', ''ec2'', ''rds'', ''route 53'', ''oci'', ''oracle cloud'',
        ''gcp'', ''azure'', ''iam'', ''vpc'', ''compute'']),
      (''frontend'', [''react'', ''next'', ''vue'', ''angular'', ''css'', ''tailwind'', ''sass'',
        ''vite'', ''webpack'', ''storybook'', ''component'', ''ui'', ''codepen'', ''gradient'',
        ''cssgradient'', ''vercel'']),
      (''uxui'', [''figma'', ''wireframe'', ''prototype'', ''ux'', ''ui'', ''design system'',
        ''octopus'', ''draw.io'', ''diagrams'', ''octopus.do'', ''node-id'']),
      (''seo'', [''ahrefs'', ''semrush'', ''sitemap'', ''backlink'', ''schema'', ''gsc'',
        ''gigalist'', ''seo'']),
      (''qa'', [''gtmetrix'', ''lighthouse'', ''browserstack'', ''lambda test'', ''pentest'',
        ''performance'', ''testing'', ''qa'', ''qa tools'']),
      (''docs'', [''docs'', ''document'', ''slides'', ''sheet'', ''confluence'', ''wiki'',
        ''guide'', ''checklist'', ''documentation'']),
      (''media'', [''video'', ''mp4'', ''youtube'', ''downloader'', ''suno'', ''pixlr'',
        ''shots'', ''mockup'', ''media'', ''image'', ''png'', ''jpg'']),
      (''cms'', [''cpanel'', ''wp-admin'', ''statamic'', ''drupal'', ''content'', ''cms'',
        ''collection'', ''entries'', ''admin'', ''cp/dashboard'']),
      (''programming'', [''github'', ''gitlab'', ''code'', ''repo'', ''er diagram'', ''drawio'',
        ''query'', ''api'', ''swagger'', ''graphql'', ''postman'', ''json'', ''csv'']),
      (''online-tools'', [''converter'', ''encode'', ''decode'', ''resize'', ''favicon'',
        ''uuid'', ''formatter'', ''dns'', ''whatsmydns'', ''tool'', ''online'']),
      (''ecommerce'', [''shop'', ''store'', ''cart'', ''checkout'', ''ecommerce'', ''shopping'',
        ''product'', ''seller'', ''buyer'', ''order'', ''price'', ''customer'']),
      (''education'', [''education'', ''college'', ''university'', ''school'', ''course'',
        ''courses'', ''learning'', ''training'', ''academy'', ''class'', ''students''])]"

text \<open>
  \<open>scoreKeywords\<close>: both loops of the source, the inner one counting with \<open>s++\<close>.
  The result lists the entries of the \<open>scores\<close> object in the order they were written,
  which is the order \<open>Object.entries\<close> reads them back (no key is an integer).
\<close>

fun count_hits :: "string \<Rightarrow> string list \<Rightarrow> nat \<Rightarrow> nat" where
  "count_hits bag [] s = s"
| "count_hits bag (w # ws) s = count_hits bag ws (if str_includes bag w then s + 1 else s)"

definition scoreKeywordsOf :: "(string \<times> string list) list \<Rightarrow> string \<Rightarrow> (string \<times> nat) list" where
  "scoreKeywordsOf kw bag = map (\<lambda>(cat, ws). (cat, count_hits bag ws 0)) kw"

definition scoreKeywords :: "string \<Rightarrow> (string \<times> nat) list" where
  "scoreKeywords bag = scoreKeywordsOf KEYWORDS bag"

text \<open>
  The \<open>forEach\<close> that picks the best score, starting from \<open>bestCat = ''\<close>,
  \<open>bestScore = 0\<close>.
\<close>

fun pickBest :: "(string \<times> nat) list \<Rightarrow> string \<times> nat \<Rightarrow> string \<times> nat" where
  "pickBest [] best = best"
| "pickBest ((cat, score) # rest) (bestCat, bestScore) =
     (if score > bestScore then pickBest rest (cat, score)
      else pickBest rest (bestCat, bestScore))"

section \<open>Data model (chrome.storage.local)\<close>

text \<open>
  Bookmark ids are the numerals the bookmark store assigns, kept as natural numbers.
  A field of a stored object that may be missing is an \<open>option\<close>; a flag that is only
  ever read for its truthiness is a \<open>bool\<close> (\<open>False\<close> when missing).
\<close>

record BookmarkMeta =
  primary :: "string option"
  description :: "string option"
  manual :: bool
  organized :: bool
  organizedAt :: "int option"
  clonedFrom :: "nat option"
  organizeFailed :: bool
  lastError :: "string option"
  needsReclassification :: bool
  categories :: "string list option"
  tags :: "string list option"

definition emptyMeta :: BookmarkMeta where
  "emptyMeta = \<lparr>primary = None, description = None, manual = False, organized = False,
     organizedAt = None, clonedFrom = None, organizeFailed = False, lastError = None,
     needsReclassification = False, categories = None, tags = None\<rparr>"

record CategoryDefinition =
  cat_id :: string
  cat_name :: string
  cat_emoji :: string
  cat_parent :: "string option"
  cat_order :: nat

datatype job_status = Idle | Running | Done | Failed

record OrgState =
  status :: job_status
  total :: nat
  done_count :: nat
  startedAt :: "int option"
  lastTitle :: "string option"
  provider :: string
  completedAt :: "int option"
  error_message :: "string option"

record Progress =
  p_status :: job_status
  p_done :: nat
  p_total :: nat
  p_message :: "string option"
  p_error :: "string option"

record OrganizationStats =
  totalBookmarks :: nat
  categoriesCreated :: nat
  stat_categories :: "(string \<times> nat) list"
  favorites :: nat
  recent :: nat

text \<open>
  The keys of \<open>chrome.storage.local\<close> the program uses.  \<open>userCategories\<close> is an object
  whose keys are read back in order (\<open>Object.keys\<close>), so it is an association list in
  that order.
\<close>

record storage =
  bookmarkMeta :: "nat \<rightharpoonup> BookmarkMeta"
  userCategories :: "(string \<times> CategoryDefinition) list"
  openai_api_key :: "string option"
  classification_mode :: "string option"
  organize_strategy :: "string option"
  org_state :: "OrgState option"
  organize_progress :: "Progress option"
  organization_stats :: "OrganizationStats option"

section \<open>The classifier (AIService.categorizeBookmarkDetailed)\<close>

text \<open>
  What the platform answers: \<open>new URL(s)\<close> (\<open>None\<close> when it throws), the body of
  \<open>fetch(url)\<close> (\<open>None\<close> for a time-out, a network error or an unreadable body), the
  three regular-expression scans of the HTML, the reply of the remote provider, and the
  form-urlencoded serialisation that \<open>URLSearchParams\<close> writes back into a URL.
\<close>

record URL =
  protocol :: string
  userinfo :: string
  hostname :: string
  port :: string
  pathname :: string
  search :: string
  searchParams :: "(string \<times> string) list"
  hash :: string

text \<open>
  The remote call sits in a \<open>try\<close> block: either something in it throws, or the reply
  parses to an object with an optional \<open>category\<close> and an optional \<open>description\<close>.
\<close>

datatype openai_outcome = OpenAI_throws | OpenAI_json "string option" "string option"

record web =
  URL_parse :: "string \<Rightarrow> URL option"
  fetch_text :: "string \<Rightarrow> string option"
  extractTitle :: "string \<Rightarrow> string"
  extractMetaDesc :: "string \<Rightarrow> string"
  textBagFromHtml :: "string \<Rightarrow> string"
  openai_chat :: "string \<Rightarrow> openai_outcome"
  urlencoded :: "(string \<times> string) list \<Rightarrow> string"

record classification =
  category :: jsval
  cls_description :: string
  source :: string

definition fetchPageContent :: "'a web_scheme \<Rightarrow> string \<Rightarrow> string" where
  "fetchPageContent w url =
     (case fetch_text w url of None \<Rightarrow> [] | Some body \<Rightarrow> take 150000 body)"

text \<open>\<open>host.replace(/^www\./, '')\<close>\<close>

definition strip_www :: "string \<Rightarrow> string" where
  "strip_www h = (if prefix ''www.'' h then drop 4 h else h)"

text \<open>Step 1, the manual override: \<open>id && meta[id] && meta[id].manual && meta[id].primary\<close>.\<close>

definition manual_override :: "storage \<Rightarrow> nat option \<Rightarrow> classification option" where
  "manual_override st bid =
     (case bid of
        None \<Rightarrow> None
      | Some i \<Rightarrow>
         (case bookmarkMeta st i of
            None \<Rightarrow> None
          | Some m \<Rightarrow>
             (case primary m of
                None \<Rightarrow> None
              | Some p \<Rightarrow>
                 if manual m \<and> p \<noteq> []
                 then Some \<lparr>category = JStr p, cls_description = str_or (description m) [],
                            source = ''manual''\<rparr>
                 else None)))"

text \<open>The \<open>for\<close> loop over \<open>PATH_HINTS\<close>: the first hint whose expression matches.\<close>

fun path_hint :: "(string list \<times> string) list \<Rightarrow> string \<Rightarrow> string option" where
  "path_hint [] p = None"
| "path_hint ((alts, cat) # hints) p = (if rx_test alts p then Some cat else path_hint hints p)"

text \<open>The remote stage, entered only with a key; a throw falls through to the heuristics.\<close>

definition openai_stage :: "'a web_scheme \<Rightarrow> string option \<Rightarrow> string \<Rightarrow> string \<Rightarrow> classification option" where
  "openai_stage w key url metaDesc =
     (if str_or key [] = [] then None
      else (case openai_chat w url of
              OpenAI_throws \<Rightarrow> None
            | OpenAI_json cat desc \<Rightarrow>
                (let chosen = trim (str_or cat []);
                     d = trim (str_or desc metaDesc);
                     chosen = (if chosen = [] then ''other'' else chosen)
                 in Some \<lparr>category = mapToGeneral (JStr chosen), cls_description = d,
                            source = ''openai''\<rparr>)))"

text \<open>The local heuristics and the default, the last two stages.\<close>

definition keyword_stage :: "string \<Rightarrow> string \<Rightarrow> classification" where
  "keyword_stage bag descOut =
     (case pickBest (scoreKeywords bag) ([], 0) of
        (bestCat, bestScore) \<Rightarrow>
          if bestScore > 0
          then \<lparr>category = mapToGeneral (JStr bestCat), cls_description = descOut,
                source = ''local''\<rparr>
          else \<lparr>category = mapToGeneral (JStr ''other''), cls_description = descOut,
                source = ''default''\<rparr>)"

text \<open>
  The pipeline.  The page is cut after 150000 characters and the summary after 240,
  counted in the characters of this model, which are those of the platform on ASCII
  text; the cuts bear on the description only.
\<close>

definition categorizeBookmarkDetailed ::
  "'a web_scheme \<Rightarrow> storage \<Rightarrow> nat option \<Rightarrow> string \<Rightarrow> string \<Rightarrow> classification" where
  "categorizeBookmarkDetailed w st bid title url =
     (case manual_override st bid of
        Some r \<Rightarrow> r
      | None \<Rightarrow>
         (let u = URL_parse w url;
              host = (case u of None \<Rightarrow> [] | Some x \<Rightarrow> strip_www (toLowerCase (hostname x)));
              path = (case u of None \<Rightarrow> [] | Some x \<Rightarrow> toLowerCase (pathname x @ search x));
              html = fetchPageContent w url;
              metaDesc = extractMetaDesc w html;
              bagText = textBagFromHtml w html;
              summary = take 240 (trim (join ''. '' (take 2 (split_sentences bagText))));
              descOut = (if metaDesc \<noteq> [] then metaDesc else summary)
          in if truthy (js_index DOMAIN_CATEGORY_MAP host)
             then \<lparr>category = mapToGeneral (js_index DOMAIN_CATEGORY_MAP host),
                   cls_description = descOut, source = ''domain''\<rparr>
             else (case path_hint PATH_HINTS path of
                     Some cat \<Rightarrow> \<lparr>category = mapToGeneral (JStr cat), cls_description = descOut,
                                  source = ''path''\<rparr>
                   | None \<Rightarrow>
                      (case openai_stage w (openai_api_key st) url metaDesc of
                         Some r \<Rightarrow> r
                       | None \<Rightarrow> keyword_stage bagText descOut))))"

section \<open>URL normalisation (normalizeUrl)\<close>

definition paramsToRemove :: "string list" where
  "paramsToRemove =
     [''utm_source'', ''utm_medium'', ''utm_campaign'', ''utm_term'', ''utm_content'',
      ''fbclid'', ''gclid'', ''ref'', ''source'', ''campaign_id'', ''ad_id'',
      ''track'', ''tracking'', ''campaign'', ''medium'']"

text \<open>\<open>urlObj.searchParams.delete(param)\<close> for every listed parameter.\<close>

fun delete_params :: "string list \<Rightarrow> (string \<times> string) list \<Rightarrow> (string \<times> string) list" where
  "delete_params [] q = q"
| "delete_params (p # ps) q = delete_params ps (filter (\<lambda>(n, v). n \<noteq> p) q)"

text \<open>
  \<open>urlObj.toString()\<close> after the deletions: the query is the serialisation of the
  remaining list, and is absent when the list is empty.
\<close>

definition href :: "'a web_scheme \<Rightarrow> URL \<Rightarrow> string" where
  "href w u =
     protocol u @ ''//'' @ userinfo u @ hostname u
       @ (if port u = [] then [] else '':'' @ port u)
       @ pathname u
       @ (if searchParams u = [] then [] else ''?'' @ urlencoded w (searchParams u))
       @ hash u"

text \<open>\<open>.replace(/\/$/, '')\<close>\<close>

definition strip_trailing_slash :: "string \<Rightarrow> string" where
  "strip_trailing_slash s = (if s \<noteq> [] \<and> last s = CHR ''/'' then butlast s else s)"

text \<open>\<open>.replace(/^https?:\/\/www\./, 'https://')\<close>\<close>

definition replace_www :: "string \<Rightarrow> string" where
  "replace_www s =
     (if prefix ''http://www.'' s then ''https://'' @ drop 11 s
      else if prefix ''https://www.'' s then ''https://'' @ drop 12 s
      else s)"

definition normalizeUrl :: "'a web_scheme \<Rightarrow> string \<Rightarrow> string" where
  "normalizeUrl w url =
     (case URL_parse w url of
        None \<Rightarrow> trim (toLowerCase url)
      | Some u \<Rightarrow>
          toLowerCase (replace_www (strip_trailing_slash
            (href w (u\<lparr>searchParams := delete_params paramsToRemove (searchParams u)\<rparr>)))))"

section \<open>The bookmark tree (getAllBookmarksFlat)\<close>

datatype BookmarkTreeNode =
  BookmarkTreeNode (node_id: nat) (node_parentId: "nat option") (node_title: string)
    (node_url: "string option") (node_dateAdded: "int option")
    (node_children: "BookmarkTreeNode list")

record BookmarkItem =
  b_id :: nat
  b_title :: string
  b_url :: string
  b_parentId :: "nat option"
  b_dateAdded :: "int option"
  b_path :: "string list"

text \<open>\<open>/^https?:/i.test(url)\<close>\<close>

definition is_http :: "string \<Rightarrow> bool" where
  "is_http u = (prefix ''http:'' (toLowerCase u) \<or> prefix ''https:'' (toLowerCase u))"

text \<open>
  \<open>walk(node, path)\<close>: the node itself first, then its children in order, each with the
  path extended by the title of this node when it has one.  The path is an array of
  titles, that is of strings.
\<close>

fun walk :: "BookmarkTreeNode \<Rightarrow> string list \<Rightarrow> BookmarkItem list" where
  "walk (BookmarkTreeNode i par t u d kids) path =
     (case u of
        None \<Rightarrow> []
      | Some url \<Rightarrow>
          if url \<noteq> [] \<and> is_http url
          then [\<lparr>b_id = i, b_title = t, b_url = url, b_parentId = par, b_dateAdded = d,
                 b_path = path\<rparr>]
          else [])
     @ concat (map (\<lambda>c. walk c (if t \<noteq> [] then path @ [t] else path)) kids)"

definition getAllBookmarksFlat :: "BookmarkTreeNode list \<Rightarrow> BookmarkItem list" where
  "getAllBookmarksFlat tree = concat (map (\<lambda>t. walk t []) tree)"

text \<open>The title of the parent folder: a brain emoji (four UTF-8 bytes) and the words.\<close>

definition SMART_PARENT :: string where
  "SMART_PARENT = [CHR 0xF0, CHR 0x9F, CHR 0xA7, CHR 0xA0] @ '' Smart Bookmarks''"

text \<open>
  \<open>b.path && b.path.some(p => p.title === SMART_PARENT)\<close>.  Every \<open>p\<close> is a string, and a
  string has no property \<open>title\<close>: \<open>p.title\<close> is \<open>undefined\<close>.
\<close>

definition title_of_string :: "string \<Rightarrow> string option" where
  "title_of_string p = None"

definition in_smart_path :: "string list \<Rightarrow> bool" where
  "in_smart_path path = list_ex (\<lambda>p. title_of_string p = Some SMART_PARENT) path"

section \<open>Category folders\<close>

text \<open>
  \<open>obj[key]\<close> read for its truthiness, where the values of \<open>obj\<close> are objects: true for
  an own key and for a name inherited from \<open>Object.prototype\<close>.
\<close>

definition has_truthy :: "(string \<times> 'a) list \<Rightarrow> string \<Rightarrow> bool" where
  "has_truthy obj k = (map_of obj k \<noteq> None \<or> k \<in> set Object_prototype_names)"

text \<open>The folder emoji given to new categories (four UTF-8 bytes).\<close>

definition FOLDER_EMOJI :: string where
  "FOLDER_EMOJI = [CHR 0xF0, CHR 0x9F, CHR 0x93, CHR 0x81]"

text \<open>\<open>w.charAt(0).toUpperCase() + w.slice(1)\<close>\<close>

definition capitalize :: "string \<Rightarrow> string" where
  "capitalize w = (case w of [] \<Rightarrow> [] | c # cs \<Rightarrow> toUpperChar c # cs)"

definition friendly :: "(char \<Rightarrow> bool) \<Rightarrow> string \<Rightarrow> string" where
  "friendly sep slug = join '' '' (map capitalize (split_on sep slug))"

definition new_category :: "(string \<times> CategoryDefinition) list \<Rightarrow> string \<Rightarrow> string \<Rightarrow> CategoryDefinition" where
  "new_category cats slug name =
     \<lparr>cat_id = slug, cat_name = name, cat_emoji = FOLDER_EMOJI, cat_parent = None,
      cat_order = length cats + 1\<rparr>"

text \<open>
  The \<open>name\<close> of what \<open>userCategories[slug]\<close> yields for an inherited name: the function
  \<open>Object\<close> for \<open>constructor\<close>, no name (printed \<open>undefined\<close>) for \<open>__proto__\<close>, and
  otherwise a method called like its key.  None of them has an \<open>emoji\<close>.
\<close>

definition inherited_display_name :: "string \<Rightarrow> string" where
  "inherited_display_name k =
     (if k = ''constructor'' then ''Object''
      else if k = ''__proto__'' then ''undefined'' else k)"

definition display_name :: "CategoryDefinition \<Rightarrow> string" where
  "display_name c = (if cat_emoji c = [] then [] else cat_emoji c @ '' '') @ cat_name c"

definition folderName :: "(string \<times> CategoryDefinition) list \<Rightarrow> string \<Rightarrow> string" where
  "folderName cats slug =
     (case map_of cats slug of
        Some c \<Rightarrow> display_name c
      | None \<Rightarrow>
          if slug \<in> set Object_prototype_names then inherited_display_name slug
          else friendly (\<lambda>c. c = CHR ''-'') slug)"

section \<open>The bookmark store and the engine state\<close>

text \<open>
  The bookmark store is an external collaborator.  The world records what it answers:
  the tree, the id of the parent folder (found or created by \<open>getSmartParentId\<close>), the
  folder that \<open>getOrCreateChildFolder\<close> finds or creates (or the error thrown on the
  way), the bookmark that \<open>chrome.bookmarks.create\<close> makes for the item at a position
  (or \<open>chrome.runtime.lastError\<close>), whether \<open>chrome.bookmarks.remove\<close> succeeds, and
  the children of a folder.  The tree and the children are those of one snapshot: what
  the handlers change in the bookmark store is in the trace, not in later answers.  The
  clock is read as one instant.  \<open>reset_in_pause i\<close> says that a \<open>resetOrganizeState\<close>
  message arrives and is handled while the job sleeps in the pause that ends item \<open>i\<close>,
  the one place where the job is suspended between two items.  A reset that arrives
  while an item is under way, whose writes interleave with those of the item, is not
  followed.
\<close>

record world = web +
  init_error :: "string option"
  bookmark_tree :: "BookmarkTreeNode list"
  smartParentId :: nat
  getOrCreateChildFolder :: "nat \<Rightarrow> string \<Rightarrow> string + nat"
  bookmarks_create :: "nat \<Rightarrow> nat \<Rightarrow> string \<Rightarrow> string \<Rightarrow> string + nat"
  bookmarks_remove :: "nat \<Rightarrow> bool"
  getChildren :: "nat \<Rightarrow> BookmarkTreeNode list"
  tree_at_dedupe :: "BookmarkTreeNode list"
  date_now :: int
  reset_in_pause :: "nat \<Rightarrow> bool"

text \<open>
  The effects, in the order they happen.  Of the console output only the cancellation
  message is kept.
\<close>

datatype event =
    ConsoleLog string
  | SaveOrgState OrgState
  | BroadcastProgress Progress
  | StorageSetMeta
  | StorageDeleteMeta nat
  | StorageSetCategories
  | StorageSetStats
  | StorageRemoveProgress
  | BookmarksMove nat nat
  | BookmarksCreate nat string string
  | BookmarksCreateFolder nat string
  | BookmarksRemove nat
  | BookmarksRemoveTree nat

fun is_write :: "event \<Rightarrow> bool" where
  "is_write (ConsoleLog m) = False"
| "is_write e = True"

text \<open>
  The module variables \<open>orgState\<close> and \<open>organizationStats\<close>, the storage, the trace,
  and the two local variables \<open>meta\<close> and \<open>userCategories\<close> of a running job.
\<close>

record engine =
  orgState :: OrgState
  organizationStats :: OrganizationStats
  store :: storage
  trace :: "event list"
  meta :: "nat \<rightharpoonup> BookmarkMeta"
  cats :: "(string \<times> CategoryDefinition) list"

definition broadcastProgress :: "Progress \<Rightarrow> engine \<Rightarrow> engine" where
  "broadcastProgress p e =
     e\<lparr>store := (store e)\<lparr>organize_progress := Some p\<rparr>,
       trace := trace e @ [BroadcastProgress p]\<rparr>"

definition saveOrgState :: "engine \<Rightarrow> engine" where
  "saveOrgState e =
     e\<lparr>store := (store e)\<lparr>org_state := Some (orgState e)\<rparr>,
       trace := trace e @ [SaveOrgState (orgState e)]\<rparr>"

definition saveStats :: "engine \<Rightarrow> engine" where
  "saveStats e =
     e\<lparr>store := (store e)\<lparr>organization_stats := Some (organizationStats e)\<rparr>,
       trace := trace e @ [StorageSetStats]\<rparr>"

definition progress :: "job_status \<Rightarrow> nat \<Rightarrow> nat \<Rightarrow> Progress" where
  "progress st d t = \<lparr>p_status = st, p_done = d, p_total = t, p_message = None, p_error = None\<rparr>"

definition idle_state :: OrgState where
  "idle_state = \<lparr>status = Idle, total = 0, done_count = 0, startedAt = None, lastTitle = None,
     provider = ''local'', completedAt = None, error_message = None\<rparr>"

definition resetOrganizeState :: "engine \<Rightarrow> engine" where
  "resetOrganizeState e =
     (let e1 = saveOrgState (e\<lparr>orgState := idle_state\<rparr>);
          e2 = e1\<lparr>store := (store e1)\<lparr>organize_progress := None\<rparr>,
                 trace := trace e1 @ [StorageRemoveProgress]\<rparr>
      in broadcastProgress (progress Idle 0 0) e2)"

definition ensureCategoryFolder :: "world \<Rightarrow> storage \<Rightarrow> string \<Rightarrow> string + nat" where
  "ensureCategoryFolder w st categoryId =
     getOrCreateChildFolder w (smartParentId w) (folderName (userCategories st) categoryId)"

section \<open>The organization job (startOrganize)\<close>

text \<open>
  The classification of one item inside the loop: the stored primary category when
  there is one and no reclassification is asked for, the classifier otherwise (which
  reads the stored metadata, not the copy the job is changing).
\<close>

definition classify_item :: "world \<Rightarrow> engine \<Rightarrow> BookmarkItem \<Rightarrow> jsval \<times> string" where
  "classify_item w e bm =
     (let viaService =
            (let r = categorizeBookmarkDetailed w (store e) (Some (b_id bm)) (b_title bm) (b_url bm)
             in (if truthy (category r) then category r else JStr ''other'', cls_description r))
      in case meta e (b_id bm) of
           None \<Rightarrow> viaService
         | Some m \<Rightarrow>
             (case primary m of
                None \<Rightarrow> viaService
              | Some p \<Rightarrow>
                  if p \<noteq> [] \<and> \<not> needsReclassification m
                  then (JStr p, str_or (description m) [])
                  else viaService))"

text \<open>
  \<open>if (!slug || slug.trim() === '') slug = 'other'; slug = slug.toLowerCase().trim()\<close>.
  A value that is not a string has no method \<open>trim\<close>: the call throws a TypeError.
\<close>

definition normalize_slug :: "jsval \<Rightarrow> string + string" where
  "normalize_slug v =
     (case v of
        JUndefined \<Rightarrow> Inr ''other''
      | JObj n \<Rightarrow> Inl ''slug.trim is not a function''
      | JStr s \<Rightarrow> Inr (trim (toLowerCase (if s = [] \<or> trim s = [] then ''other'' else s))))"

datatype item_outcome = Completed | Threw string | CloneSkipped

text \<open>
  \<open>categories[slug] = (categories[slug] || 0) + 1\<close> on the counters of the stats (for a
  slug named like an inherited property the source adds 1 to a function, which is not a
  count; the stats are no part of any property below).
\<close>

definition bump :: "(string \<times> nat) list \<Rightarrow> string \<Rightarrow> (string \<times> nat) list" where
  "bump cs k =
     (case map_of cs k of
        None \<Rightarrow> cs @ [(k, 1)]
      | Some n \<Rightarrow> map (\<lambda>(k', v). if k' = k then (k', v + 1) else (k', v)) cs)"

definition update_stats :: "int \<Rightarrow> string \<Rightarrow> BookmarkItem \<Rightarrow> engine \<Rightarrow> engine" where
  "update_stats weekAgo slug bm e =
     (let st = organizationStats e;
          st1 = st\<lparr>stat_categories := bump (stat_categories st) slug\<rparr>;
          st2 = (case b_dateAdded bm of
                   None \<Rightarrow> st1
                 | Some d \<Rightarrow> if d \<noteq> 0 \<and> d > weekAgo then st1\<lparr>recent := recent st1 + 1\<rparr> else st1)
      in e\<lparr>organizationStats := st2\<rparr>)"

text \<open>The body of the \<open>try\<close> block for one item.\<close>

definition organize_item ::
  "world \<Rightarrow> string \<Rightarrow> int \<Rightarrow> nat \<Rightarrow> BookmarkItem \<Rightarrow> engine \<Rightarrow> item_outcome \<times> engine" where
  "organize_item w strategy weekAgo i bm e =
     (case classify_item w e bm of
        (cat, desc) \<Rightarrow>
          (case normalize_slug cat of
             Inl err \<Rightarrow> (Threw err, e)
           | Inr slug \<Rightarrow>
               (let cats1 = (if has_truthy (cats e) slug then cats e
                             else cats e @ [(slug, new_category (cats e) slug
                                    (friendly (\<lambda>c. c = CHR ''-'' \<or> c = CHR ''_'') slug))]);
                    m0 = (case meta e (b_id bm) of None \<Rightarrow> emptyMeta | Some m \<Rightarrow> m);
                    m1 = m0\<lparr>primary := Some slug, description := Some desc, organized := True,
                           organizedAt := Some (date_now w), needsReclassification := False\<rparr>;
                    e1 = e\<lparr>cats := cats1, meta := (meta e)(b_id bm \<mapsto> m1)\<rparr>
                in case ensureCategoryFolder w (store e) slug of
                     Inl err \<Rightarrow> (Threw err, e1)
                   | Inr targetParent \<Rightarrow>
                       if strategy = ''move''
                       then (Completed, update_stats weekAgo slug bm
                               (e1\<lparr>trace := trace e1 @ [BookmarksMove (b_id bm) targetParent]\<rparr>))
                       else (case bookmarks_create w i targetParent (b_title bm) (b_url bm) of
                               Inl err \<Rightarrow> (CloneSkipped, e1)
                             | Inr newId \<Rightarrow>
                                 (Completed, update_stats weekAgo slug bm
                                   (e1\<lparr>trace := trace e1 @
                                          [BookmarksCreate targetParent (b_title bm) (b_url bm)],
                                       meta := (meta e1)(newId \<mapsto>
                                          emptyMeta\<lparr>primary := Some slug, description := Some desc,
                                            manual := False, organized := True,
                                            organizedAt := Some (date_now w),
                                            clonedFrom := Some (b_id bm)\<rparr>)\<rparr>))))))"

text \<open>The \<open>catch\<close> block of one item.\<close>

definition mark_failed :: "string \<Rightarrow> BookmarkItem \<Rightarrow> engine \<Rightarrow> engine" where
  "mark_failed err bm e =
     (let m0 = (case meta e (b_id bm) of None \<Rightarrow> emptyMeta | Some m \<Rightarrow> m)
      in e\<lparr>meta := (meta e)(b_id bm \<mapsto> m0\<lparr>organizeFailed := True, lastError := Some err\<rparr>)\<rparr>)"

text \<open>The progress update that ends an iteration.\<close>

definition update_progress :: "nat \<Rightarrow> BookmarkItem \<Rightarrow> engine \<Rightarrow> engine" where
  "update_progress i bm e =
     (let e1 = saveOrgState
                 (e\<lparr>orgState := (orgState e)\<lparr>done_count := i + 1, lastTitle := Some (b_title bm)\<rparr>\<rparr>)
      in broadcastProgress
           (progress Running (done_count (orgState e1)) (total (orgState e1))) e1)"

text \<open>
  The pause that ends the items 10, 20, ... (\<open>if (i % 10 === 0 && i > 0)\<close>), in which a
  reset may be handled.
\<close>

definition pause :: "world \<Rightarrow> nat \<Rightarrow> engine \<Rightarrow> engine" where
  "pause w i e =
     (if i mod 10 = 0 \<and> i > 0 \<and> reset_in_pause w i then resetOrganizeState e else e)"

text \<open>
  One iteration after the cancellation check.  A failed clone leaves the iteration with
  \<open>continue\<close>, before the progress update and the pause.
\<close>

definition step_item ::
  "world \<Rightarrow> string \<Rightarrow> int \<Rightarrow> nat \<Rightarrow> BookmarkItem \<Rightarrow> engine \<Rightarrow> engine" where
  "step_item w strategy weekAgo i bm e =
     (case organize_item w strategy weekAgo i bm e of
        (Completed, e1) \<Rightarrow> pause w i (update_progress i bm e1)
      | (Threw err, e1) \<Rightarrow> pause w i (update_progress i bm (mark_failed err bm e1))
      | (CloneSkipped, e1) \<Rightarrow> e1)"

text \<open>The \<open>for\<close> loop, with the status check that opens every iteration.\<close>

fun process_items ::
  "world \<Rightarrow> string \<Rightarrow> int \<Rightarrow> nat \<Rightarrow> BookmarkItem list \<Rightarrow> engine \<Rightarrow> engine" where
  "process_items w strategy weekAgo i [] e = e"
| "process_items w strategy weekAgo i (bm # rest) e =
     (if status (orgState e) \<noteq> Running
      then e\<lparr>trace := trace e @ [ConsoleLog ''Organization cancelled'']\<rparr>
      else process_items w strategy weekAgo (i + 1) rest (step_item w strategy weekAgo i bm e))"

section \<open>The duplicate reconciler (removeDuplicatesFromSmartBookmarks)\<close>

record DedupeResult =
  dd_success :: bool
  duplicatesFound :: nat
  duplicatesRemoved :: nat
  smartBookmarksTotal :: nat
  originalBookmarksTotal :: nat

text \<open>
  A \<open>Map\<close> from keys to arrays, filled with \<open>if (!m.has(k)) m.set(k, []); m.get(k).push(x)\<close>
  and read back in insertion order.
\<close>

fun map_push :: "string \<Rightarrow> 'a \<Rightarrow> (string \<times> 'a list) list \<Rightarrow> (string \<times> 'a list) list" where
  "map_push k x [] = [(k, [x])]"
| "map_push k x ((k', xs) # m) =
     (if k' = k then (k', xs @ [x]) # m else (k', xs) # map_push k x m)"

definition group_by :: "('a \<Rightarrow> string) \<Rightarrow> 'a list \<Rightarrow> (string \<times> 'a list) list" where
  "group_by key xs = foldl (\<lambda>m x. map_push (key x) x m) [] xs"

text \<open>
  \<open>bookmarks.sort((a, b) => (a.dateAdded || 0) - (b.dateAdded || 0))\<close>: a stable sort
  by the date, a missing date counting as 0.
\<close>

definition date_key :: "BookmarkItem \<Rightarrow> int" where
  "date_key b = (case b_dateAdded b of None \<Rightarrow> 0 | Some d \<Rightarrow> d)"

definition sort_by_date :: "BookmarkItem list \<Rightarrow> BookmarkItem list" where
  "sort_by_date bs = sort_key date_key bs"

definition in_smart :: "world \<Rightarrow> BookmarkItem \<Rightarrow> bool" where
  "in_smart w bm = (in_smart_path (b_path bm) \<or> b_parentId bm = Some (smartParentId w))"

definition exact_key :: "world \<Rightarrow> BookmarkItem \<Rightarrow> string" where
  "exact_key w bm = normalizeUrl w (b_url bm) @ ''|'' @ trim (b_title bm)"

definition title_key :: "BookmarkItem \<Rightarrow> string" where
  "title_key bm = toLowerCase (trim (b_title bm))"

text \<open>The pass over the exact matches (same normalised URL and same trimmed title).\<close>

fun exact_pass ::
  "(string \<times> BookmarkItem list) list \<Rightarrow> nat \<times> BookmarkItem list \<Rightarrow> nat \<times> BookmarkItem list" where
  "exact_pass [] acc = acc"
| "exact_pass ((key, bs) # groups) (found, toRemove) =
     (if length bs > 1
      then exact_pass groups (found + (length bs - 1), toRemove @ tl (sort_by_date bs))
      else exact_pass groups (found, toRemove))"

text \<open>The inner loop of the second pass: \<open>if (!duplicatesToRemove.find(...)) push\<close>.\<close>

fun push_unmarked :: "BookmarkItem list \<Rightarrow> BookmarkItem list \<Rightarrow> BookmarkItem list" where
  "push_unmarked [] toRemove = toRemove"
| "push_unmarked (b # bs) toRemove =
     push_unmarked bs
       (if list_ex (\<lambda>d. b_id d = b_id b) toRemove then toRemove else toRemove @ [b])"

fun title_pass ::
  "(string \<times> BookmarkItem list) list \<Rightarrow> nat \<times> BookmarkItem list \<Rightarrow> nat \<times> BookmarkItem list" where
  "title_pass [] acc = acc"
| "title_pass ((titleKey, bs) # groups) (found, toRemove) =
     (if length bs > 1
      then title_pass groups
             (found + (length bs - 1), push_unmarked (tl (sort_by_date bs)) toRemove)
      else title_pass groups (found, toRemove))"

fun url_pass ::
  "(string \<times> BookmarkItem list) list \<Rightarrow> nat \<times> BookmarkItem list \<Rightarrow> nat \<times> BookmarkItem list" where
  "url_pass [] acc = acc"
| "url_pass ((url, bs) # groups) acc =
     (if length bs > 1
      then url_pass groups (title_pass (group_by title_key bs) acc)
      else url_pass groups acc)"

text \<open>
  The removal loop.  \<open>duplicatesRemoved++\<close> sits in the success branch of the callback;
  a failed removal rejects, is logged by the \<open>catch\<close> and leaves the metadata alone.
\<close>

fun remove_all ::
  "world \<Rightarrow> BookmarkItem list \<Rightarrow> nat \<times> storage \<times> event list \<Rightarrow> nat \<times> storage \<times> event list" where
  "remove_all w [] acc = acc"
| "remove_all w (d # ds) (removed, st, tr) =
     (if bookmarks_remove w (b_id d)
      then (case bookmarkMeta st (b_id d) of
              None \<Rightarrow> remove_all w ds (removed + 1, st, tr @ [BookmarksRemove (b_id d)])
            | Some m \<Rightarrow>
                remove_all w ds
                  (removed + 1, st\<lparr>bookmarkMeta := (bookmarkMeta st)(b_id d := None)\<rparr>,
                   tr @ [BookmarksRemove (b_id d), StorageDeleteMeta (b_id d)]))
      else remove_all w ds (removed, st, tr))"

definition duplicatesToRemove :: "world \<Rightarrow> BookmarkItem list \<Rightarrow> nat \<times> BookmarkItem list" where
  "duplicatesToRemove w smartBookmarks =
     (let withUrl = filter (\<lambda>bm. b_url bm \<noteq> []) smartBookmarks;
          urlToBookmarks = group_by (exact_key w) withUrl;
          urlOnlyMap = group_by (\<lambda>bm. normalizeUrl w (b_url bm)) withUrl
      in url_pass urlOnlyMap (exact_pass urlToBookmarks (0, [])))"

definition removeDuplicatesFromSmartBookmarks ::
  "world \<Rightarrow> BookmarkTreeNode list \<Rightarrow> storage \<Rightarrow> DedupeResult \<times> storage \<times> event list" where
  "removeDuplicatesFromSmartBookmarks w tree st =
     (let allBookmarks = getAllBookmarksFlat tree;
          smartBookmarks = filter (in_smart w) allBookmarks;
          regularBookmarks = filter (\<lambda>bm. \<not> in_smart w bm) allBookmarks
      in case duplicatesToRemove w smartBookmarks of
           (found, toRemove) \<Rightarrow>
             (case remove_all w toRemove (0, st, []) of
                (removed, st', tr) \<Rightarrow>
                  (\<lparr>dd_success = True, duplicatesFound = found, duplicatesRemoved = removed,
                    smartBookmarksTotal = length smartBookmarks,
                    originalBookmarksTotal = length regularBookmarks\<rparr>, st', tr)))"

section \<open>Starting and finishing a job\<close>

record StartResult =
  success :: bool
  res_error :: "string option"
  res_message :: "string option"
  res_stats :: "OrganizationStats option"

text \<open>What follows the loop, whichever way the loop was left.\<close>

definition finish_job :: "world \<Rightarrow> string \<Rightarrow> engine \<Rightarrow> engine" where
  "finish_job w strategy e =
     (let e1 = e\<lparr>store := (store e)\<lparr>bookmarkMeta := meta e, userCategories := cats e\<rparr>,
                 trace := trace e @ [StorageSetMeta]\<rparr>;
          e2 = (if strategy = ''clone''
                then (let b = broadcastProgress
                                ((progress Running (total (orgState e1)) (total (orgState e1)))
                                   \<lparr>p_message := Some ''Removing duplicates...''\<rparr>) e1
                      in case removeDuplicatesFromSmartBookmarks w (tree_at_dedupe w) (store b) of
                           (r, st', tr) \<Rightarrow> b\<lparr>store := st', trace := trace b @ tr\<rparr>)
                else e1);
          e3 = saveOrgState
                 (e2\<lparr>orgState := (orgState e2)\<lparr>status := Done, completedAt := Some (date_now w)\<rparr>\<rparr>);
          e4 = broadcastProgress (progress Done (total (orgState e3)) (total (orgState e3))) e3
      in saveStats
           (e4\<lparr>organizationStats := (organizationStats e4)
                  \<lparr>categoriesCreated := length (stat_categories (organizationStats e4))\<rparr>\<rparr>))"

definition toProcess :: "world \<Rightarrow> BookmarkItem list" where
  "toProcess w =
     filter (\<lambda>b. b_parentId b \<noteq> Some (smartParentId w) \<and> \<not> in_smart_path (b_path b))
       (getAllBookmarksFlat (bookmark_tree w))"

definition startOrganize :: "world \<Rightarrow> engine \<Rightarrow> StartResult \<times> engine" where
  "startOrganize w e =
     (if status (orgState e) = Running
      then (\<lparr>success = False, res_error = Some ''Already organizing'', res_message = None,
             res_stats = None\<rparr>, e)
      else (case init_error w of
              Some err \<Rightarrow>
                (let e1 = saveOrgState
                            (e\<lparr>orgState := (orgState e)\<lparr>status := Failed, error_message := Some err\<rparr>\<rparr>);
                     e2 = broadcastProgress
                            ((progress Failed (done_count (orgState e1)) (total (orgState e1)))
                               \<lparr>p_error := Some err\<rparr>) e1
                 in (\<lparr>success = False, res_error = Some err, res_message = None,
                      res_stats = None\<rparr>, e2))
            | None \<Rightarrow>
                (let list = getAllBookmarksFlat (bookmark_tree w);
                     items = toProcess w
                 in if items = []
                    then (\<lparr>success = True, res_error = None,
                           res_message = Some ''No bookmarks need organizing'', res_stats = None\<rparr>, e)
                    else
                      (let strategy = str_or (organize_strategy (store e)) ''clone'';
                           e1 = saveOrgState
                                  (e\<lparr>orgState :=
                                       \<lparr>status = Running, total = length items, done_count = 0,
                                        startedAt = Some (date_now w), lastTitle = None,
                                        provider = str_or (classification_mode (store e)) ''local'',
                                        completedAt = None, error_message = None\<rparr>\<rparr>);
                           e2 = broadcastProgress (progress Running 0 (length items)) e1;
                           e3 = e2\<lparr>organizationStats := (organizationStats e2)
                                       \<lparr>totalBookmarks := length list, stat_categories := [],
                                        recent := 0\<rparr>,
                                   meta := bookmarkMeta (store e2),
                                   cats := userCategories (store e2)\<rparr>;
                           weekAgo = date_now w - 7 * 24 * 60 * 60 * 1000;
                           e4 = process_items w strategy weekAgo 0 items e3;
                           e5 = finish_job w strategy e4
                       in (\<lparr>success = True, res_error = None, res_message = None,
                            res_stats = Some (organizationStats e5)\<rparr>, e5)))))"

section \<open>Taxonomy update (the updateUserCategories message)\<close>

text \<open>\<open>newCats.other ? 'other' : Object.keys(newCats)[0] || null\<close>\<close>

definition fallbackSlug :: "(string \<times> CategoryDefinition) list \<Rightarrow> string option" where
  "fallbackSlug newCats =
     (if has_truthy newCats ''other'' then Some ''other''
      else (case map fst newCats of
              [] \<Rightarrow> None
            | k # ks \<Rightarrow> if k = [] then None else Some k))"

definition removed_slugs ::
  "(string \<times> CategoryDefinition) list \<Rightarrow> (string \<times> CategoryDefinition) list \<Rightarrow> string list" where
  "removed_slugs oldCats newCats = filter (\<lambda>slug. \<not> has_truthy newCats slug) (map fst oldCats)"

definition no_url :: "BookmarkTreeNode \<Rightarrow> bool" where
  "no_url n = (case node_url n of None \<Rightarrow> True | Some u \<Rightarrow> u = [])"

text \<open>The folder of a removed category: the first child folder with its display name.\<close>

definition find_folder :: "BookmarkTreeNode list \<Rightarrow> string \<Rightarrow> nat option" where
  "find_folder children fName =
     map_option node_id (find (\<lambda>c. no_url c \<and> node_title c = fName) children)"

text \<open>The metadata of one bookmark found in the folder of the removed category.\<close>

definition reassign :: "string \<Rightarrow> string option \<Rightarrow> BookmarkMeta \<Rightarrow> BookmarkMeta" where
  "reassign slug fallback m =
     (let cs = filter (\<lambda>c. c \<noteq> slug) (case categories m of None \<Rightarrow> [] | Some cs \<Rightarrow> cs);
          newPrimary = (case cs of
                          [] \<Rightarrow> fallback
                        | c # rest \<Rightarrow> if c \<noteq> [] then Some c else fallback);
          m1 = m\<lparr>categories := Some cs\<rparr>;
          m2 = (if primary m1 = Some slug then m1\<lparr>primary := newPrimary\<rparr> else m1)
      in m2\<lparr>manual := True\<rparr>)"

text \<open>
  The loop over the children of the folder; \<open>ensureCategoryFolder\<close> may throw, which
  ends the whole handler in its \<open>catch\<close>.
\<close>

fun reassign_children ::
  "world \<Rightarrow> storage \<Rightarrow> string \<Rightarrow> string option \<Rightarrow> BookmarkTreeNode list \<Rightarrow>
     (nat \<rightharpoonup> BookmarkMeta) \<times> event list \<Rightarrow> string + ((nat \<rightharpoonup> BookmarkMeta) \<times> event list)" where
  "reassign_children w st slug fallback [] acc = Inr acc"
| "reassign_children w st slug fallback (child # rest) (mt, tr) =
     (if no_url child then reassign_children w st slug fallback rest (mt, tr)
      else
        (let mt1 = (case mt (node_id child) of
                      None \<Rightarrow> mt
                    | Some m \<Rightarrow> mt(node_id child \<mapsto> reassign slug fallback m))
         in case fallback of
              None \<Rightarrow> reassign_children w st slug fallback rest (mt1, tr)
            | Some fb \<Rightarrow>
                (case ensureCategoryFolder w st fb of
                   Inl err \<Rightarrow> Inl err
                 | Inr parentFolderId \<Rightarrow>
                     reassign_children w st slug fallback rest
                       (mt1, tr @ [BookmarksMove (node_id child) parentFolderId]))))"

text \<open>The loop over the removed categories.\<close>

fun remove_categories ::
  "world \<Rightarrow> storage \<Rightarrow> (string \<times> CategoryDefinition) list \<Rightarrow> string option \<Rightarrow>
     BookmarkTreeNode list \<Rightarrow> string list \<Rightarrow>
     (nat \<rightharpoonup> BookmarkMeta) \<times> event list \<Rightarrow> string + ((nat \<rightharpoonup> BookmarkMeta) \<times> event list)" where
  "remove_categories w st oldCats fallback children [] acc = Inr acc"
| "remove_categories w st oldCats fallback children (slug # slugs) acc =
     (case find_folder children (folderName oldCats slug) of
        None \<Rightarrow> remove_categories w st oldCats fallback children slugs acc
      | Some folderId \<Rightarrow>
          (case reassign_children w st slug fallback (getChildren w folderId) acc of
             Inl err \<Rightarrow> Inl err
           | Inr (mt, tr) \<Rightarrow>
               remove_categories w st oldCats fallback children slugs
                 (mt, tr @ [BookmarksRemoveTree folderId])))"

text \<open>
  \<open>ensureUserCategoryFolders\<close>: a folder for every stored category that has none.
  The existing titles are the keys of an object, read with \<open>!existing[folderName]\<close>.
\<close>

definition ensureUserCategoryFolders :: "world \<Rightarrow> storage \<Rightarrow> event list" where
  "ensureUserCategoryFolders w st =
     (let existing = map node_title (filter no_url (getChildren w (smartParentId w)))
      in map (\<lambda>(slug, c). BookmarksCreateFolder (smartParentId w) (display_name c))
           (filter (\<lambda>(slug, c). display_name c \<notin> set existing
                        \<and> display_name c \<notin> set Object_prototype_names)
              (userCategories st)))"

text \<open>
  The handler: the response (\<open>Inl\<close> the error of its \<open>catch\<close>), the storage and the
  effects on the bookmark store.
\<close>

definition updateUserCategories ::
  "world \<Rightarrow> (string \<times> CategoryDefinition) list \<Rightarrow> storage \<Rightarrow>
     string + (storage \<times> event list)" where
  "updateUserCategories w newCats st =
     (let oldCats = userCategories st;
          removed = removed_slugs oldCats newCats;
          fallback = fallbackSlug newCats
      in case remove_categories w st oldCats fallback (getChildren w (smartParentId w)) removed
              (bookmarkMeta st, []) of
           Inl err \<Rightarrow> Inl err
         | Inr (mt, tr) \<Rightarrow>
             (let st1 = st\<lparr>bookmarkMeta := mt, userCategories := newCats\<rparr>
              in Inr (st1, tr @ [StorageSetMeta, StorageSetCategories]
                             @ ensureUserCategoryFolders w st1)))"

section \<open>Concrete inputs for the examples\<close>

text \<open>
  A URL parser for the examples.  It accepts \<open>http://\<close> or \<open>https://\<close>, a host of
  letters, dots and hyphens that starts with a letter and has no \<open>xn--\<close> in it, and a
  path of letters, digits and \<open>/ - _ .\<close> in which no segment starts with a dot (no
  port, credentials, query or fragment); it rejects every other string.
\<close>

definition plain_rest :: "string \<Rightarrow> bool" where
  "plain_rest rest =
     (let h = takeWhile (\<lambda>c. c \<noteq> CHR ''/'') rest;
          p = dropWhile (\<lambda>c. c \<noteq> CHR ''/'') rest
      in h \<noteq> [] \<and> hd h \<in> set (lowerAZ @ upperAZ)
         \<and> list_all (\<lambda>c. c \<in> set (lowerAZ @ upperAZ @ ''.-'')) h
         \<and> \<not> str_includes (toLowerCase h) ''xn--''
         \<and> list_all (\<lambda>c. c \<in> set (lowerAZ @ upperAZ @ ''0123456789/-_.'')) p
         \<and> \<not> str_includes p ''/.'')"

definition simple_URL :: "string \<Rightarrow> string \<Rightarrow> URL" where
  "simple_URL scheme rest =
     \<lparr>protocol = scheme, userinfo = [],
      hostname = toLowerCase (takeWhile (\<lambda>c. c \<noteq> CHR ''/'') rest), port = [],
      pathname = (let p = dropWhile (\<lambda>c. c \<noteq> CHR ''/'') rest in if p = [] then ''/'' else p),
      search = [], searchParams = [], hash = []\<rparr>"

definition simple_URL_parse :: "string \<Rightarrow> URL option" where
  "simple_URL_parse s =
     (if prefix ''http://'' s \<and> length s > 7 \<and> plain_rest (drop 7 s)
      then Some (simple_URL ''http:'' (drop 7 s))
      else if prefix ''https://'' s \<and> length s > 8 \<and> plain_rest (drop 8 s)
      then Some (simple_URL ''https:'' (drop 8 s))
      else None)"

text \<open>A web where every page fetch fails and no remote provider answers.\<close>

definition offline_web :: web where
  "offline_web =
     \<lparr>URL_parse = simple_URL_parse, fetch_text = (\<lambda>u. None), extractTitle = (\<lambda>h. []),
      extractMetaDesc = (\<lambda>h. []), textBagFromHtml = (\<lambda>h. ''  ''),
      openai_chat = (\<lambda>u. OpenAI_throws), urlencoded = (\<lambda>q. [])\<rparr>"

definition empty_storage :: storage where
  "empty_storage =
     \<lparr>bookmarkMeta = Map.empty, userCategories = [], openai_api_key = None,
      classification_mode = None, organize_strategy = None, org_state = None,
      organize_progress = None, organization_stats = None\<rparr>"

definition empty_stats :: OrganizationStats where
  "empty_stats = \<lparr>totalBookmarks = 0, categoriesCreated = 0, stat_categories = [],
     favorites = 0, recent = 0\<rparr>"

definition fresh_engine :: "storage \<Rightarrow> engine" where
  "fresh_engine st =
     \<lparr>orgState = idle_state, organizationStats = empty_stats, store = st, trace = [],
      meta = Map.empty, cats = []\<rparr>"

text \<open>
  The world of the examples: the parent folder has id 10, every folder asked for is
  folder 20, the clone of the item at position \<open>i\<close> gets id \<open>100 + i\<close>, removals succeed,
  nobody resets the job.
\<close>

definition example_world :: "BookmarkTreeNode list \<Rightarrow> world" where
  "example_world tree =
     web.extend offline_web
       \<lparr>init_error = None, bookmark_tree = tree, smartParentId = 10,
        getOrCreateChildFolder = (\<lambda>p n. Inr 20),
        bookmarks_create = (\<lambda>i p t u. Inr (100 + i)),
        bookmarks_remove = (\<lambda>i. True), getChildren = (\<lambda>i. []),
        tree_at_dedupe = tree, date_now = 1000000000000, reset_in_pause = (\<lambda>i. False)\<rparr>"

definition bookmark :: "nat \<Rightarrow> nat \<Rightarrow> string \<Rightarrow> string \<Rightarrow> int \<Rightarrow> BookmarkTreeNode" where
  "bookmark i par t u d = BookmarkTreeNode i (Some par) t (Some u) (Some d) []"

definition folder :: "nat \<Rightarrow> nat option \<Rightarrow> string \<Rightarrow> BookmarkTreeNode list \<Rightarrow> BookmarkTreeNode" where
  "folder i par t kids = BookmarkTreeNode i par t None None kids"

text \<open>
  Two copies of one page inside a category folder of the parent folder, and the
  original on the bookmarks bar.
\<close>

definition tree_category_folder :: "BookmarkTreeNode list" where
  "tree_category_folder =
     [folder 0 None []
        [folder 1 (Some 0) ''Bookmarks bar''
           [bookmark 2 1 ''Page'' ''https://example.com/page'' 100],
         folder 10 (Some 0) SMART_PARENT
           [folder 11 (Some 10) ''Docs''
              [bookmark 12 11 ''Page'' ''https://example.com/page'' 100,
               bookmark 13 11 ''Page'' ''https://example.com/page'' 200]]]]"

text \<open>The same two copies directly inside the parent folder.\<close>

definition tree_direct_children :: "BookmarkTreeNode list" where
  "tree_direct_children =
     [folder 0 None []
        [folder 10 (Some 0) SMART_PARENT
           [bookmark 12 10 ''Page'' ''https://example.com/page'' 100,
            bookmark 13 10 ''Page'' ''https://example.com/page'' 200]]]"


text \<open>An engine in the middle of a job: two of five items done.\<close>

definition running_engine :: engine where
  "running_engine =
     (fresh_engine empty_storage)
       \<lparr>orgState := idle_state\<lparr>status := Running, total := 5, done_count := 2\<rparr>\<rparr>"

section \<open>Notions used to state the properties\<close>

text \<open>
  A metadata record that no longer refers to a category: not as primary, not in its
  list of categories, and marked manual.
\<close>

definition detached :: "string \<Rightarrow> BookmarkMeta \<Rightarrow> bool" where
  "detached slug m =
     (primary m \<noteq> Some slug \<and> manual m
      \<and> (case categories m of None \<Rightarrow> False | Some cs \<Rightarrow> slug \<notin> set cs))"

text \<open>The progress messages of a trace, in order.\<close>

fun broadcasts :: "event list \<Rightarrow> Progress list" where
  "broadcasts [] = []"
| "broadcasts (BroadcastProgress p # es) = p # broadcasts es"
| "broadcasts (e # es) = broadcasts es"

text \<open>
  The keyword score read as a count of occurrences: every position of the bag at which
  a keyword starts counts, so a keyword that occurs three times scores three.
\<close>

fun occurrences :: "string \<Rightarrow> string \<Rightarrow> nat" where
  "occurrences [] w = 0"
| "occurrences (c # cs) w = (if prefix w (c # cs) then 1 else 0) + occurrences cs w"

definition occurrence_scores :: "(string \<times> string list) list \<Rightarrow> string \<Rightarrow> (string \<times> nat) list" where
  "occurrence_scores kw bag = map (\<lambda>(cat, ws). (cat, sum_list (map (occurrences bag) ws))) kw"

text \<open>
  The bookmarks of a folder (its children with a URL), and the removed categories whose
  folder the taxonomy update finds, each with that folder.
\<close>

definition members :: "world \<Rightarrow> nat \<Rightarrow> nat list" where
  "members w folderId = map node_id (filter (\<lambda>c. \<not> no_url c) (getChildren w folderId))"

definition removed_folders ::
  "world \<Rightarrow> (string \<times> CategoryDefinition) list \<Rightarrow> string list \<Rightarrow> (string \<times> nat) list" where
  "removed_folders w oldCats removed =
     concat (map (\<lambda>slug. case find_folder (getChildren w (smartParentId w))
                                (folderName oldCats slug) of
                            None \<Rightarrow> []
                          | Some f \<Rightarrow> [(slug, f)]) removed)"

text \<open>
  The taxonomy example: the categories \<open>docs\<close> and \<open>other\<close>; the folder \<open>Docs\<close> (id 11)
  holds the clone 12 of the bookmark 5, which stayed on the bookmarks bar; both have a
  metadata record with primary \<open>docs\<close>, as the job writes them.
\<close>

definition plain_category :: "string \<Rightarrow> string \<Rightarrow> nat \<Rightarrow> CategoryDefinition" where
  "plain_category slug name n =
     \<lparr>cat_id = slug, cat_name = name, cat_emoji = [], cat_parent = None, cat_order = n\<rparr>"

definition taxonomy_world :: world where
  "taxonomy_world =
     (example_world [])
       \<lparr>getChildren :=
          (\<lambda>i. if i = 10 then [folder 11 (Some 10) ''Docs'' [], folder 20 (Some 10) ''Other'' []]
                else if i = 11 then [bookmark 12 11 ''Page'' ''https://example.com/page'' 200]
                else [])\<rparr>"

definition taxonomy_storage :: storage where
  "taxonomy_storage =
     empty_storage
       \<lparr>userCategories := [(''docs'', plain_category ''docs'' ''Docs'' 1),
                           (''other'', plain_category ''other'' ''Other'' 2)],
        bookmarkMeta :=
          [5 \<mapsto> emptyMeta\<lparr>primary := Some ''docs'', description := Some [], organized := True\<rparr>,
           12 \<mapsto> emptyMeta\<lparr>primary := Some ''docs'', description := Some [], organized := True,
                   clonedFrom := Some 5\<rparr>]\<rparr>"

definition taxonomy_newCats :: "(string \<times> CategoryDefinition) list" where
  "taxonomy_newCats = [(''other'', plain_category ''other'' ''Other'' 1)]"



definition tree_two_bookmarks :: "BookmarkTreeNode list" where
  "tree_two_bookmarks =
     [folder 0 None []
        [folder 1 (Some 0) ''Bookmarks bar''
           [bookmark 2 1 ''Page'' ''https://example.com/page'' 100,
            bookmark 3 1 ''Other page'' ''https://example.com/other'' 200]]]"

text \<open>
  Twelve bookmarks on the bookmarks bar (ids 2 to 13), and a world in which a reset
  arrives in the pause that ends the item at position 10, so that the job finds itself
  cancelled when it looks at the last item.
\<close>

definition tree_twelve_bookmarks :: "BookmarkTreeNode list" where
  "tree_twelve_bookmarks =
     [folder 0 None []
        [folder 1 (Some 0) ''Bookmarks bar''
           (map (\<lambda>n. bookmark (2 + n) 1 ''Page''
                        (''https://example.com/'' @ replicate (Suc n) CHR ''p'') 100)
              [0..<12])]]"

definition cancelling_world :: world where
  "cancelling_world =
     (example_world tree_twelve_bookmarks)\<lparr>reset_in_pause := (\<lambda>i. i = 10)\<rparr>"

text \<open>
  A cancelled clone job: by the pause the engine has gathered records for the two
  copies 12 and 13 that lie directly in the parent folder when the duplicate pass reads
  the tree.
\<close>

definition cancelling_clone_world :: world where
  "cancelling_clone_world = cancelling_world\<lparr>tree_at_dedupe := tree_direct_children\<rparr>"

definition gathered_engine :: engine where
  "gathered_engine =
     running_engine
       \<lparr>meta := [12 \<mapsto> emptyMeta\<lparr>primary := Some ''docs'', organized := True\<rparr>,
                 13 \<mapsto> emptyMeta\<lparr>primary := Some ''docs'', organized := True\<rparr>]\<rparr>"

definition pending_item :: BookmarkItem where
  "pending_item =
     \<lparr>b_id = 30, b_title = ''Other page'', b_url = ''https://example.com/other'',
      b_parentId = Some 1, b_dateAdded = Some 200, b_path = [''Bookmarks bar'']\<rparr>"

text \<open>The same world with a bookmark store that refuses to create the clones.\<close>

definition clone_failing_world :: world where
  "clone_failing_world =
     (example_world tree_two_bookmarks)
       \<lparr>bookmarks_create := (\<lambda>i p t u. Inl ''Can not create bookmark'')\<rparr>"

section \<open>The keyword rule\<close>

lemma count_hits_acc: "count_hits bag ws s = s + length (filter (str_includes bag) ws)"
  by (induction ws arbitrary: s) auto

lemma pickBest_ge:
  "pickBest xs (c0, s0) = (c, s) \<Longrightarrow> s0 \<le> s \<and> (\<forall>p \<in> set xs. snd p \<le> s)"
proof (induction xs arbitrary: c0 s0)
  case Nil
  then show ?case by simp
next
  case (Cons x xs)
  obtain cat score where x: "x = (cat, score)" by (cases x)
  show ?case
  proof (cases "score > s0")
    case True
    with Cons.prems x have "pickBest xs (cat, score) = (c, s)" by simp
    from Cons.IH[OF this] True x show ?thesis by simp
  next
    case False
    with Cons.prems x have "pickBest xs (c0, s0) = (c, s)" by simp
    from Cons.IH[OF this] False x show ?thesis by simp
  qed
qed

lemma pickBest_same:
  "pickBest xs (c0, s0) = (c, s) \<Longrightarrow> \<not> s0 < s \<Longrightarrow> c = c0 \<and> s = s0"
proof (induction xs arbitrary: c0 s0)
  case Nil
  then show ?case by simp
next
  case (Cons x xs)
  obtain cat score where x: "x = (cat, score)" by (cases x)
  show ?case
  proof (cases "score > s0")
    case True
    with Cons.prems x have pb: "pickBest xs (cat, score) = (c, s)" by simp
    from pickBest_ge[OF pb] have "score \<le> s" by simp
    with True Cons.prems(2) show ?thesis by simp
  next
    case False
    with Cons.prems x have "pickBest xs (c0, s0) = (c, s)" by simp
    from Cons.IH[OF this Cons.prems(2)] show ?thesis .
  qed
qed

lemma pickBest_first:
  "pickBest xs (c0, s0) = (c, s) \<Longrightarrow> s0 < s \<Longrightarrow>
     \<exists>pre post. xs = pre @ (c, s) # post \<and>
        (\<forall>p \<in> set pre. snd p < s) \<and> (\<forall>p \<in> set post. snd p \<le> s)"
proof (induction xs arbitrary: c0 s0)
  case Nil
  then show ?case by simp
next
  case (Cons x xs)
  obtain cat score where x: "x = (cat, score)" by (cases x)
  have step: "\<And>pre post. xs = pre @ (c, s) # post \<Longrightarrow> \<forall>p \<in> set pre. snd p < s \<Longrightarrow>
      \<forall>p \<in> set post. snd p \<le> s \<Longrightarrow> score < s \<Longrightarrow> ?case"
  proof -
    fix pre post
    assume a: "xs = pre @ (c, s) # post" "\<forall>p \<in> set pre. snd p < s"
      "\<forall>p \<in> set post. snd p \<le> s" "score < s"
    have "x # xs = (x # pre) @ (c, s) # post \<and> (\<forall>p \<in> set (x # pre). snd p < s)
        \<and> (\<forall>p \<in> set post. snd p \<le> s)"
      using a x by simp
    then show ?case by (intro exI)
  qed
  show ?case
  proof (cases "score > s0")
    case True
    with Cons.prems x have pb: "pickBest xs (cat, score) = (c, s)" by simp
    show ?thesis
    proof (cases "score < s")
      case True
      from Cons.IH[OF pb True] obtain pre post where
        "xs = pre @ (c, s) # post" "\<forall>p \<in> set pre. snd p < s" "\<forall>p \<in> set post. snd p \<le> s"
        by (elim exE conjE)
      then show ?thesis using True by (rule step)
    next
      case False
      from pickBest_same[OF pb False] have eq: "c = cat" "s = score" by simp_all
      from pickBest_ge[OF pb] have le: "\<forall>p \<in> set xs. snd p \<le> s" by simp
      have "x # xs = [] @ (c, s) # xs \<and> (\<forall>p \<in> set []. snd p < s)
        \<and> (\<forall>p \<in> set xs. snd p \<le> s)"
        using x eq le by simp
      then show ?thesis by (intro exI)
    qed
  next
    case False
    with Cons.prems x have pb: "pickBest xs (c0, s0) = (c, s)" by simp
    from Cons.IH[OF pb Cons.prems(2)] obtain pre post where
      "xs = pre @ (c, s) # post" "\<forall>p \<in> set pre. snd p < s" "\<forall>p \<in> set post. snd p \<le> s"
      by (elim exE conjE)
    moreover have "score < s" using False Cons.prems(2) by simp
    ultimately show ?thesis by (rule step)
  qed
qed

lemma scoreKeywords_counts:
  "scoreKeywords bag =
     map (\<lambda>(cat, ws). (cat, length (filter (str_includes bag) ws))) KEYWORDS"
  by (simp add: scoreKeywords_def scoreKeywordsOf_def count_hits_acc)

lemma mapToGeneral_other: "mapToGeneral (JStr ''other'') = JStr ''other''"
  by (simp add: js_index_def GENERAL_CATEGORY_MAP_def)

text \<open>
  Claim C7, as the code has it.  The score of a category is the number of its keywords
  that occur in the text bag, each keyword counting once however often it occurs
  (\<open>bag.includes(w)\<close>).  When the best score is positive, the winner is an entry of the score table
  that every earlier category stays strictly below and no later category exceeds (so a
  tie goes to the category declared first), and the classification has source
  \<open>local\<close>.  When every score is zero there is no keyword match and the stage returns
  the default category \<open>other\<close> with source \<open>default\<close>.
\<close>

theorem C7_keyword_rule:
  assumes "pickBest (scoreKeywords bag) ([], 0) = (bestCat, bestScore)"
  shows "scoreKeywords bag =
           map (\<lambda>(cat, ws). (cat, length (filter (str_includes bag) ws))) KEYWORDS
       \<and> (0 < bestScore \<longrightarrow>
            (\<exists>pre post. scoreKeywords bag = pre @ (bestCat, bestScore) # post
               \<and> (\<forall>p \<in> set pre. snd p < bestScore)
               \<and> (\<forall>p \<in> set post. snd p \<le> bestScore))
            \<and> keyword_stage bag d =
                \<lparr>category = mapToGeneral (JStr bestCat), cls_description = d,
                 source = ''local''\<rparr>)
       \<and> (bestScore = 0 \<longrightarrow>
            (\<forall>p \<in> set (scoreKeywords bag). snd p = 0)
            \<and> keyword_stage bag d =
                \<lparr>category = JStr ''other'', cls_description = d, source = ''default''\<rparr>)"
proof -
  let ?sc = "scoreKeywords bag"
  have pos: "0 < bestScore \<Longrightarrow> keyword_stage bag d =
      \<lparr>category = mapToGeneral (JStr bestCat), cls_description = d, source = ''local''\<rparr>"
    using assms by (simp add: keyword_stage_def)
  have zero: "bestScore = 0 \<Longrightarrow> keyword_stage bag d =
      \<lparr>category = JStr ''other'', cls_description = d, source = ''default''\<rparr>"
    using assms mapToGeneral_other by (simp add: keyword_stage_def)
  have split: "0 < bestScore \<Longrightarrow> \<exists>pre post. ?sc = pre @ (bestCat, bestScore) # post
        \<and> (\<forall>p \<in> set pre. snd p < bestScore) \<and> (\<forall>p \<in> set post. snd p \<le> bestScore)"
    by (rule pickBest_first[OF assms])
  have allzero: "bestScore = 0 \<Longrightarrow> \<forall>p \<in> set ?sc. snd p = 0"
    using pickBest_ge[OF assms] by simp
  show ?thesis
    by (intro conjI impI) (rule scoreKeywords_counts, erule split, erule pos, erule allzero,
      erule zero)
qed

text \<open>
  The claim as stated, a count of occurrences, fails: in the bag below \<open>css\<close> occurs
  three times, which would give \<open>frontend\<close> the score 3 and the win; the code counts the
  keyword once, so \<open>docs\<close> wins with its two keywords \<open>sheet\<close> and \<open>wiki\<close>.
\<close>

theorem C7_occurrences_counterexample:
  "pickBest (occurrence_scores KEYWORDS ''css css css wiki sheet'') ([], 0) = (''frontend'', 3)
   \<and> pickBest (scoreKeywords ''css css css wiki sheet'') ([], 0) = (''docs'', 2)
   \<and> keyword_stage ''css css css wiki sheet'' [] =
         \<lparr>category = JStr ''docs'', cls_description = [], source = ''local''\<rparr>"
  by code_simp

theorem C7_keyword_rule_witness:
  "pickBest (scoreKeywords ''ui'') ([], 0) = (''frontend'', 1)
   \<and> keyword_stage ''ui'' ''d'' =
       \<lparr>category = mapToGeneral (JStr ''frontend''), cls_description = ''d'',
        source = ''local''\<rparr>"
proof -
  have h: "pickBest (scoreKeywords ''ui'') ([], 0) = (''frontend'', 1)"
    by code_simp
  have p: "(0::nat) < 1" by simp
  note r = C7_keyword_rule[OF h, of "''d''"]
  from conjunct2[OF conjunct1[OF conjunct2[OF r], THEN mp, OF p]] h
  show ?thesis by (intro conjI)
qed

section \<open>The classifier on a host named like an inherited property\<close>

text \<open>
  Claim C5.  The classifier is a total function: an unparseable URL gives an empty host
  and path, a failed fetch gives empty content, a throw of the remote call falls through
  to the heuristics.  But its category is not always a slug.  For the bookmark
  \<open>http://constructor/\<close> the host is \<open>constructor\<close>, the lookup
  \<open>DOMAIN_CATEGORY_MAP[host]\<close> finds the function inherited from \<open>Object.prototype\<close>,
  and that function is returned as the category, with source \<open>domain\<close>.
\<close>

theorem C5_inherited_name_is_no_slug:
  "categorizeBookmarkDetailed offline_web empty_storage None ''Intranet'' ''http://constructor/''
     = \<lparr>category = JObj ''constructor'', cls_description = [], source = ''domain''\<rparr>"
  by code_simp

text \<open>
  Apart from such names the classifier always answers with a non-empty string: whatever
  the URL, the fetch and the remote reply, if neither the host nor the category proposed
  by the remote provider is a name inherited from \<open>Object.prototype\<close>.
\<close>

lemma mapToGeneral_slug:
  assumes "c \<noteq> []" and "c \<notin> set Object_prototype_names"
  shows "\<exists>s. mapToGeneral (JStr c) = JStr s \<and> s \<noteq> []"
  using assms by (cases "map_of GENERAL_CATEGORY_MAP c") (auto simp: js_index_def Let_def)

lemma domain_values_plain:
  "\<forall>v \<in> set (map snd DOMAIN_CATEGORY_MAP). v \<noteq> [] \<and> v \<notin> set Object_prototype_names"
  by (simp add: DOMAIN_CATEGORY_MAP_def Object_prototype_names_def)

lemma hint_values_plain:
  "\<forall>v \<in> set (map snd PATH_HINTS). v \<noteq> [] \<and> v \<notin> set Object_prototype_names"
  by (simp add: PATH_HINTS_def Object_prototype_names_def)

lemma keyword_keys_plain:
  "\<forall>v \<in> set (map fst KEYWORDS). v \<noteq> [] \<and> v \<notin> set Object_prototype_names"
  by (simp add: KEYWORDS_def Object_prototype_names_def)

lemma path_hint_member: "path_hint hs p = Some cat \<Longrightarrow> cat \<in> set (map snd hs)"
  by (induction hs p rule: path_hint.induct) (auto split: if_splits)

lemma keyword_stage_slug: "\<exists>s. category (keyword_stage bag d) = JStr s \<and> s \<noteq> []"
proof -
  obtain bestCat bestScore where pb: "pickBest (scoreKeywords bag) ([], 0) = (bestCat, bestScore)"
    by (cases "pickBest (scoreKeywords bag) ([], 0)")
  show ?thesis
  proof (cases "0 < bestScore")
    case False
    with pb show ?thesis
      by (simp add: keyword_stage_def js_index_def GENERAL_CATEGORY_MAP_def)
  next
    case True
    from pickBest_first[OF pb True] have "(bestCat, bestScore) \<in> set (scoreKeywords bag)"
      by auto
    then have "bestCat \<in> set (map fst KEYWORDS)"
      by (force simp: scoreKeywords_def scoreKeywordsOf_def)
    with keyword_keys_plain have "bestCat \<noteq> []" "bestCat \<notin> set Object_prototype_names"
      by blast+
    from mapToGeneral_slug[OF this] pb True show ?thesis by (simp add: keyword_stage_def)
  qed
qed

lemma classifier_returns_slug:
  assumes host: "\<forall>u. URL_parse w url = Some u \<longrightarrow>
        strip_www (toLowerCase (hostname u)) \<notin> set Object_prototype_names"
    and remote: "\<forall>c d. openai_chat w url = OpenAI_json c d \<longrightarrow>
        trim (str_or c []) \<notin> set Object_prototype_names"
  shows "\<exists>s. category (categorizeBookmarkDetailed w st bid title url) = JStr s \<and> s \<noteq> []"
proof (cases "manual_override st bid")
  case (Some r)
  then have "\<exists>s. category r = JStr s \<and> s \<noteq> []"
    by (auto simp: manual_override_def split: option.splits if_splits)
  with Some show ?thesis by (simp add: categorizeBookmarkDetailed_def)
next
  case None
  define h where "h = (case URL_parse w url of None \<Rightarrow> []
      | Some x \<Rightarrow> strip_www (toLowerCase (hostname x)))"
  define pth where "pth = (case URL_parse w url of None \<Rightarrow> []
      | Some x \<Rightarrow> toLowerCase (pathname x @ search x))"
  have hp: "h \<notin> set Object_prototype_names"
    using host by (auto simp: h_def Object_prototype_names_def split: option.splits)
  show ?thesis
  proof (cases "truthy (js_index DOMAIN_CATEGORY_MAP h)")
    case True
    with hp obtain v where v: "map_of DOMAIN_CATEGORY_MAP h = Some v"
      by (auto simp: js_index_def split: option.splits)
    then have "v \<in> set (map snd DOMAIN_CATEGORY_MAP)"
      by (metis map_of_SomeD image_eqI list.set_map snd_conv)
    with domain_values_plain have "v \<noteq> []" "v \<notin> set Object_prototype_names" by blast+
    from mapToGeneral_slug[OF this] v True None show ?thesis
      by (simp add: categorizeBookmarkDetailed_def Let_def h_def js_index_def)
  next
    case nd: False
    show ?thesis
    proof (cases "path_hint PATH_HINTS pth")
      case (Some cat)
      from path_hint_member[OF Some] hint_values_plain
      have "cat \<noteq> []" "cat \<notin> set Object_prototype_names" by blast+
      from mapToGeneral_slug[OF this] Some nd None show ?thesis
        by (simp add: categorizeBookmarkDetailed_def Let_def h_def pth_def)
    next
      case np: None
      let ?html = "fetchPageContent w url"
      let ?md = "extractMetaDesc w ?html"
      show ?thesis
      proof (cases "openai_stage w (openai_api_key st) url ?md")
        case (Some r)
        then obtain c d where oc: "openai_chat w url = OpenAI_json c d"
          and r: "r = \<lparr>category = mapToGeneral (JStr (if trim (str_or c []) = [] then ''other''
                 else trim (str_or c []))), cls_description = trim (str_or d ?md),
                 source = ''openai''\<rparr>"
          by (auto simp: openai_stage_def Let_def split: if_splits openai_outcome.splits)
        have "(if trim (str_or c []) = [] then ''other'' else trim (str_or c [])) \<noteq> []" by simp
        moreover have "(if trim (str_or c []) = [] then ''other'' else trim (str_or c []))
            \<notin> set Object_prototype_names"
          using remote oc by (auto simp: Object_prototype_names_def)
        ultimately have "\<exists>s. category r = JStr s \<and> s \<noteq> []"
          using mapToGeneral_slug r by simp
        with Some np nd None show ?thesis
          by (simp add: categorizeBookmarkDetailed_def Let_def h_def pth_def)
      next
        case no: None
        from keyword_stage_slug no np nd \<open>manual_override st bid = None\<close> show ?thesis
          by (simp add: categorizeBookmarkDetailed_def Let_def h_def pth_def)
      qed
    qed
  qed
qed

section \<open>The duplicate reconciler on concrete trees\<close>

text \<open>
  Claim C6.  Two bookmarks with the same URL and title inside a category folder of the
  parent folder: the test \<open>p.title === SMART_PARENT\<close> on the path never holds and their
  parent is the category folder, so the reconciler does not count them among the smart
  bookmarks; it finds nothing, removes nothing, and both copies remain.
\<close>

theorem C6_copies_in_category_folder_survive:
  "(case removeDuplicatesFromSmartBookmarks (example_world tree_category_folder)
           tree_category_folder empty_storage of
      (r, st, tr) \<Rightarrow> (r, tr))
     = (\<lparr>dd_success = True, duplicatesFound = 0, duplicatesRemoved = 0,
         smartBookmarksTotal = 0, originalBookmarksTotal = 3\<rparr>, [])"
  by code_simp

text \<open>
  Claim C8.  Two bookmarks with the same URL and title directly inside the parent
  folder, every removal succeeding: the later copy is counted by the pass over exact
  matches and again by the pass over URL groups, but entered in the removal list once.
  The reconciler reports two duplicates found and one removed.
\<close>

theorem C8_found_counts_twice:
  "fst (removeDuplicatesFromSmartBookmarks (example_world tree_direct_children)
          tree_direct_children empty_storage)
     = \<lparr>dd_success = True, duplicatesFound = 2, duplicatesRemoved = 1,
        smartBookmarksTotal = 2, originalBookmarksTotal = 0\<rparr>"
  by code_simp

section \<open>At most one running job\<close>

text \<open>
  Claim C2.  When the job status is \<open>running\<close>, \<open>startOrganize\<close> answers
  \<open>success: false\<close> with the error \<open>Already organizing\<close> and changes nothing: the job
  state with its \<open>total\<close> and \<open>done\<close>, the storage and the trace of effects are the
  ones it was called with, so nothing is queued either.
\<close>

theorem C2_running_job_rejects_start:
  assumes "status (orgState e) = Running"
  shows "startOrganize w e =
           (\<lparr>success = False, res_error = Some ''Already organizing'', res_message = None,
             res_stats = None\<rparr>, e)"
  using assms by (simp add: startOrganize_def)

theorem C2_running_job_rejects_start_witness:
  "status (orgState running_engine) = Running
   \<and> success (fst (startOrganize (example_world tree_category_folder) running_engine)) = False
   \<and> total (orgState (snd (startOrganize (example_world tree_category_folder) running_engine))) = 5
   \<and> done_count (orgState (snd (startOrganize (example_world tree_category_folder) running_engine))) = 2"
proof -
  have r: "status (orgState running_engine) = Running"
    by (simp add: running_engine_def fresh_engine_def idle_state_def)
  from C2_running_job_rejects_start[OF r, of "example_world tree_category_folder"] r
  show ?thesis by (simp add: running_engine_def fresh_engine_def idle_state_def)
qed

section \<open>URL normalisation\<close>









subsection \<open>Groups and marks of the duplicate reconciler\<close>












lemma remove_all_exact:
  "remove_all w ds (n, st, tr) = (n', st', tr') \<Longrightarrow>
     bookmarkMeta st' j =
       (if \<exists>d \<in> set ds. b_id d = j \<and> bookmarks_remove w j then None else bookmarkMeta st j)
     \<and> (\<forall>d \<in> set ds. bookmarks_remove w (b_id d) \<longrightarrow> BookmarksRemove (b_id d) \<in> set tr')
     \<and> set tr \<subseteq> set tr'"
proof (induction ds arbitrary: n st tr)
  case Nil
  then show ?case by simp
next
  case (Cons d ds)
  show ?case
  proof (cases "bookmarks_remove w (b_id d)")
    case False
    with Cons.prems have "remove_all w ds (n, st, tr) = (n', st', tr')" by simp
    from Cons.IH[OF this] False show ?thesis by auto
  next
    case True
    show ?thesis
    proof (cases "bookmarkMeta st (b_id d)")
      case None
      with True Cons.prems have
        "remove_all w ds (n + 1, st, tr @ [BookmarksRemove (b_id d)]) = (n', st', tr')" by simp
      from Cons.IH[OF this] True None show ?thesis by auto
    next
      case (Some m)
      with True Cons.prems have
        "remove_all w ds (n + 1, st\<lparr>bookmarkMeta := (bookmarkMeta st)(b_id d := None)\<rparr>,
           tr @ [BookmarksRemove (b_id d), StorageDeleteMeta (b_id d)]) = (n', st', tr')" by simp
      from Cons.IH[OF this] True show ?thesis by auto
    qed
  qed
qed

lemma remove_all_events:
  "remove_all w ds (n, st, tr) = (n', st', tr') \<Longrightarrow>
     \<exists>tr1. tr' = tr @ tr1 \<and>
       (\<forall>ev \<in> set tr1. \<exists>d \<in> set ds. bookmarks_remove w (b_id d)
           \<and> (ev = BookmarksRemove (b_id d) \<or> ev = StorageDeleteMeta (b_id d)))"
proof (induction ds arbitrary: n st tr)
  case Nil
  then show ?case by simp
next
  case (Cons d ds)
  show ?case
  proof (cases "bookmarks_remove w (b_id d)")
    case False
    with Cons.prems have "remove_all w ds (n, st, tr) = (n', st', tr')" by simp
    from Cons.IH[OF this] show ?thesis by auto
  next
    case True
    show ?thesis
    proof (cases "bookmarkMeta st (b_id d)")
      case None
      with True Cons.prems have
        "remove_all w ds (n + 1, st, tr @ [BookmarksRemove (b_id d)]) = (n', st', tr')" by simp
      from Cons.IH[OF this] obtain tr1 where t: "tr' = (tr @ [BookmarksRemove (b_id d)]) @ tr1"
        "\<forall>ev \<in> set tr1. \<exists>d \<in> set ds. bookmarks_remove w (b_id d)
           \<and> (ev = BookmarksRemove (b_id d) \<or> ev = StorageDeleteMeta (b_id d))" by blast
      have "tr' = tr @ (BookmarksRemove (b_id d) # tr1)" using t(1) by simp
      moreover have "\<forall>ev \<in> set (BookmarksRemove (b_id d) # tr1). \<exists>x \<in> set (d # ds).
           bookmarks_remove w (b_id x)
           \<and> (ev = BookmarksRemove (b_id x) \<or> ev = StorageDeleteMeta (b_id x))"
        using t(2) True by auto
      ultimately show ?thesis by blast
    next
      case (Some m)
      with True Cons.prems have
        "remove_all w ds (n + 1, st\<lparr>bookmarkMeta := (bookmarkMeta st)(b_id d := None)\<rparr>,
           tr @ [BookmarksRemove (b_id d), StorageDeleteMeta (b_id d)]) = (n', st', tr')" by simp
      from Cons.IH[OF this] obtain tr1 where
        t: "tr' = (tr @ [BookmarksRemove (b_id d), StorageDeleteMeta (b_id d)]) @ tr1"
        "\<forall>ev \<in> set tr1. \<exists>d \<in> set ds. bookmarks_remove w (b_id d)
           \<and> (ev = BookmarksRemove (b_id d) \<or> ev = StorageDeleteMeta (b_id d))" by blast
      have "tr' = tr @ (BookmarksRemove (b_id d) # StorageDeleteMeta (b_id d) # tr1)"
        using t(1) by simp
      moreover have "\<forall>ev \<in> set (BookmarksRemove (b_id d) # StorageDeleteMeta (b_id d) # tr1).
           \<exists>x \<in> set (d # ds). bookmarks_remove w (b_id x)
           \<and> (ev = BookmarksRemove (b_id x) \<or> ev = StorageDeleteMeta (b_id x))"
        using t(2) True by auto
      ultimately show ?thesis by blast
    qed
  qed
qed

lemma remove_all_rest:
  "remove_all w ds (n, st, tr) = (n', st', tr') \<Longrightarrow>
     userCategories st' = userCategories st \<and> org_state st' = org_state st
     \<and> organize_progress st' = organize_progress st
     \<and> organization_stats st' = organization_stats st"
proof (induction ds arbitrary: n st tr)
  case Nil
  then show ?case by simp
next
  case (Cons d ds)
  show ?case
  proof (cases "bookmarks_remove w (b_id d)")
    case False
    with Cons.prems have "remove_all w ds (n, st, tr) = (n', st', tr')" by simp
    from Cons.IH[OF this] show ?thesis .
  next
    case True
    show ?thesis
    proof (cases "bookmarkMeta st (b_id d)")
      case None
      with True Cons.prems have
        "remove_all w ds (n + 1, st, tr @ [BookmarksRemove (b_id d)]) = (n', st', tr')" by simp
      from Cons.IH[OF this] show ?thesis by auto
    next
      case (Some m)
      with True Cons.prems have
        "remove_all w ds (n + 1, st\<lparr>bookmarkMeta := (bookmarkMeta st)(b_id d := None)\<rparr>,
           tr @ [BookmarksRemove (b_id d), StorageDeleteMeta (b_id d)]) = (n', st', tr')" by simp
      from Cons.IH[OF this] show ?thesis by auto
    qed
  qed
qed







section \<open>Taxonomy update\<close>

lemma filter_Cons_head: "filter P xs = y # ys \<Longrightarrow> P y \<and> y \<in> set xs"
proof -
  assume a: "filter P xs = y # ys"
  have "y \<in> set (filter P xs)" unfolding a by simp
  then show ?thesis by simp
qed

lemma reassign_detaches:
  "fb \<noteq> Some slug \<Longrightarrow> detached slug (reassign slug fb m)"
  by (auto simp: detached_def reassign_def Let_def split: list.splits option.splits
      dest: filter_Cons_head)

lemma remove_categories_step:
  assumes "remove_categories w st oc fb ch (s0 # slugs) (mt, tr) = Inr (mt', tr')"
  shows "(find_folder ch (folderName oc s0) = None
            \<and> remove_categories w st oc fb ch slugs (mt, tr) = Inr (mt', tr'))
       \<or> (\<exists>f0 mt1 tr1. find_folder ch (folderName oc s0) = Some f0
            \<and> reassign_children w st s0 fb (getChildren w f0) (mt, tr) = Inr (mt1, tr1)
            \<and> remove_categories w st oc fb ch slugs (mt1, tr1 @ [BookmarksRemoveTree f0])
                 = Inr (mt', tr'))"
proof (cases "find_folder ch (folderName oc s0)")
  case None
  with assms show ?thesis by simp
next
  case (Some f0)
  show ?thesis
  proof (cases "reassign_children w st s0 fb (getChildren w f0) (mt, tr)")
    case (Inl e)
    with assms Some show ?thesis by simp
  next
    case (Inr p)
    obtain mt1 tr1 where "p = (mt1, tr1)" by (cases p)
    with assms Some Inr show ?thesis by simp
  qed
qed

lemma removed_not_fallback:
  "slug \<in> set (removed_slugs oldCats newCats) \<Longrightarrow> fallbackSlug newCats \<noteq> Some slug"
  by (cases newCats) (auto simp: removed_slugs_def fallbackSlug_def has_truthy_def)


lemma reassign_children_exact:
  assumes "reassign_children w st s fb kids (mt, tr) = Inr (mt', tr')"
    and "distinct (map node_id (filter (\<lambda>c. \<not> no_url c) kids))"
  shows "mt' j = (if j \<in> set (map node_id (filter (\<lambda>c. \<not> no_url c) kids))
                  then map_option (reassign s fb) (mt j) else mt j)
       \<and> (\<forall>f. BookmarksRemoveTree f \<in> set tr' \<longleftrightarrow> BookmarksRemoveTree f \<in> set tr)"
  using assms
proof (induction kids arbitrary: mt tr)
  case Nil
  then show ?case by simp
next
  case (Cons child rest)
  show ?case
  proof (cases "no_url child")
    case True
    with Cons.prems have run: "reassign_children w st s fb rest (mt, tr) = Inr (mt', tr')"
      and d: "distinct (map node_id (filter (\<lambda>c. \<not> no_url c) rest))" by simp_all
    from Cons.IH[OF run d] True show ?thesis by simp
  next
    case False
    define mt1 where "mt1 = (case mt (node_id child) of None \<Rightarrow> mt
        | Some m \<Rightarrow> mt(node_id child \<mapsto> reassign s fb m))"
    have "\<exists>tr1. reassign_children w st s fb rest (mt1, tr1) = Inr (mt', tr')
        \<and> (\<forall>f. BookmarksRemoveTree f \<in> set tr1 \<longleftrightarrow> BookmarksRemoveTree f \<in> set tr)"
    proof (cases fb)
      case None
      with Cons.prems(1) False show ?thesis by (auto simp: mt1_def Let_def)
    next
      case (Some x)
      with Cons.prems(1) False show ?thesis
        by (cases "ensureCategoryFolder w st x") (auto simp: mt1_def Let_def)
    qed
    then obtain tr1 where run: "reassign_children w st s fb rest (mt1, tr1) = Inr (mt', tr')"
      and t1: "\<forall>f. BookmarksRemoveTree f \<in> set tr1 \<longleftrightarrow> BookmarksRemoveTree f \<in> set tr" by blast
    from Cons.prems(2) False have d: "distinct (map node_id (filter (\<lambda>c. \<not> no_url c) rest))"
      and fresh: "node_id child \<notin> set (map node_id (filter (\<lambda>c. \<not> no_url c) rest))" by simp_all
    have m1: "mt1 j = (if j = node_id child then map_option (reassign s fb) (mt j) else mt j)"
      by (auto simp: mt1_def split: option.splits)
    from Cons.IH[OF run d] have ih: "mt' j = (if j \<in> set (map node_id (filter (\<lambda>c. \<not> no_url c) rest))
                  then map_option (reassign s fb) (mt1 j) else mt1 j)"
      "\<forall>f. BookmarksRemoveTree f \<in> set tr' \<longleftrightarrow> BookmarksRemoveTree f \<in> set tr1" by simp_all
    have "mt' j = (if j \<in> set (map node_id (filter (\<lambda>c. \<not> no_url c) (child # rest)))
                  then map_option (reassign s fb) (mt j) else mt j)"
    proof (cases "j = node_id child")
      case True
      with fresh ih(1) m1 False show ?thesis by simp
    next
      case ne: False
      with ih(1) m1 False show ?thesis by simp
    qed
    with ih(2) t1 show ?thesis by simp
  qed
qed

lemma removed_folders_Cons:
  "removed_folders w oc (s0 # slugs) =
     (case find_folder (getChildren w (smartParentId w)) (folderName oc s0) of
        None \<Rightarrow> [] | Some f \<Rightarrow> [(s0, f)]) @ removed_folders w oc slugs"
  by (simp add: removed_folders_def)

lemma remove_categories_exact:
  assumes "remove_categories w st oc fb (getChildren w (smartParentId w)) slugs (mt, tr)
             = Inr (mt', tr')"
    and "distinct (concat (map (\<lambda>(s, f). members w f) (removed_folders w oc slugs)))"
  shows "(\<forall>p \<in> set (removed_folders w oc slugs). \<forall>j \<in> set (members w (snd p)).
            mt' j = map_option (reassign (fst p) fb) (mt j))
       \<and> (\<forall>j. (\<forall>p \<in> set (removed_folders w oc slugs). j \<notin> set (members w (snd p)))
               \<longrightarrow> mt' j = mt j)
       \<and> (\<forall>f. BookmarksRemoveTree f \<in> set tr' \<longleftrightarrow>
               BookmarksRemoveTree f \<in> set tr \<or> f \<in> snd ` set (removed_folders w oc slugs))"
  using assms
proof (induction slugs arbitrary: mt tr)
  case Nil
  then show ?case by (simp add: removed_folders_def)
next
  case (Cons s0 slugs)
  let ?ch = "getChildren w (smartParentId w)"
  let ?rf = "removed_folders w oc slugs"
  from remove_categories_step[OF Cons.prems(1)] show ?case
  proof (elim disjE conjE exE)
    assume nf: "find_folder ?ch (folderName oc s0) = None"
      and run: "remove_categories w st oc fb ?ch slugs (mt, tr) = Inr (mt', tr')"
    from nf have rf: "removed_folders w oc (s0 # slugs) = ?rf" by (simp add: removed_folders_Cons)
    from Cons.prems(2) rf have d: "distinct (concat (map (\<lambda>(s, f). members w f) ?rf))" by simp
    from Cons.IH[OF run d] show ?thesis unfolding rf .
  next
    fix f0 mt1 tr1
    assume ff: "find_folder ?ch (folderName oc s0) = Some f0"
      and rc: "reassign_children w st s0 fb (getChildren w f0) (mt, tr) = Inr (mt1, tr1)"
      and run: "remove_categories w st oc fb ?ch slugs (mt1, tr1 @ [BookmarksRemoveTree f0])
                 = Inr (mt', tr')"
    from ff have rf: "removed_folders w oc (s0 # slugs) = (s0, f0) # ?rf"
      by (simp add: removed_folders_Cons)
    from Cons.prems(2) rf have dd: "distinct (members w f0 @ concat (map (\<lambda>(s, f). members w f) ?rf))"
      by simp
    then have d0: "distinct (members w f0)"
      and d: "distinct (concat (map (\<lambda>(s, f). members w f) ?rf))"
      and di: "set (members w f0) \<inter> set (concat (map (\<lambda>(s, f). members w f) ?rf)) = {}"
      by simp_all
    have dj: "\<forall>p \<in> set ?rf. set (members w f0) \<inter> set (members w (snd p)) = {}"
    proof
      fix p assume p: "p \<in> set ?rf"
      obtain s f where pe: "p = (s, f)" by (cases p)
      with p have "set (members w f) \<subseteq> set (concat (map (\<lambda>(s, f). members w f) ?rf))"
        by force
      with di pe show "set (members w f0) \<inter> set (members w (snd p)) = {}" by auto
    qed
    from d0 have d0': "distinct (map node_id (filter (\<lambda>c. \<not> no_url c) (getChildren w f0)))"
      by (simp add: members_def)
    have e1: "\<And>j. mt1 j = (if j \<in> set (members w f0)
                  then map_option (reassign s0 fb) (mt j) else mt j)"
      and t1: "\<forall>f. BookmarksRemoveTree f \<in> set tr1 \<longleftrightarrow> BookmarksRemoveTree f \<in> set tr"
      using reassign_children_exact[OF rc d0'] by (simp_all add: members_def)
    from Cons.IH[OF run d] have ih:
      "\<forall>p \<in> set ?rf. \<forall>j \<in> set (members w (snd p)). mt' j = map_option (reassign (fst p) fb) (mt1 j)"
      "\<forall>j. (\<forall>p \<in> set ?rf. j \<notin> set (members w (snd p))) \<longrightarrow> mt' j = mt1 j"
      "\<forall>f. BookmarksRemoveTree f \<in> set tr' \<longleftrightarrow>
          BookmarksRemoveTree f \<in> set (tr1 @ [BookmarksRemoveTree f0]) \<or> f \<in> snd ` set ?rf"
      by simp_all
    have a: "\<forall>p \<in> set ((s0, f0) # ?rf). \<forall>j \<in> set (members w (snd p)).
            mt' j = map_option (reassign (fst p) fb) (mt j)"
    proof (intro ballI)
      fix p j assume p: "p \<in> set ((s0, f0) # ?rf)" and j: "j \<in> set (members w (snd p))"
      show "mt' j = map_option (reassign (fst p) fb) (mt j)"
      proof (cases "p \<in> set ?rf")
        case True
        with dj j have "j \<notin> set (members w f0)" by auto
        with e1 have "mt1 j = mt j" by simp
        with ih(1) True j show ?thesis by simp
      next
        case False
        with p have pe: "p = (s0, f0)" by simp
        with j have j0: "j \<in> set (members w f0)" by simp
        with dj have "\<forall>p \<in> set ?rf. j \<notin> set (members w (snd p))" by auto
        with ih(2) have "mt' j = mt1 j" by simp
        with e1 j0 pe show ?thesis by simp
      qed
    qed
    have b: "\<forall>j. (\<forall>p \<in> set ((s0, f0) # ?rf). j \<notin> set (members w (snd p))) \<longrightarrow> mt' j = mt j"
    proof (intro allI impI)
      fix j assume n: "\<forall>p \<in> set ((s0, f0) # ?rf). j \<notin> set (members w (snd p))"
      then have "j \<notin> set (members w f0)" "\<forall>p \<in> set ?rf. j \<notin> set (members w (snd p))" by simp_all
      with ih(2) e1 show "mt' j = mt j" by simp
    qed
    have c: "\<forall>f. BookmarksRemoveTree f \<in> set tr' \<longleftrightarrow>
               BookmarksRemoveTree f \<in> set tr \<or> f \<in> snd ` set ((s0, f0) # ?rf)"
      using ih(3) t1 by auto
    from a b c show ?thesis unfolding rf by blast
  qed
qed

lemma removed_folders_member:
  "(s, f) \<in> set (removed_folders w oc slugs) \<longleftrightarrow>
     s \<in> set slugs \<and> find_folder (getChildren w (smartParentId w)) (folderName oc s) = Some f"
  by (induction slugs) (auto simp: removed_folders_Cons removed_folders_def split: option.splits)

lemma ensure_folders_no_removal:
  "BookmarksRemoveTree f \<notin> set (ensureUserCategoryFolders w st)"
  by (auto simp: ensureUserCategoryFolders_def Let_def)

lemma reassign_only_slug:
  assumes "primary m = Some slug"
    and "\<forall>c \<in> set (case categories m of None \<Rightarrow> [] | Some cs \<Rightarrow> cs). c = slug"
  shows "primary (reassign slug fb m) = fb"
proof -
  have "filter (\<lambda>c. c \<noteq> slug) (case categories m of None \<Rightarrow> [] | Some cs \<Rightarrow> cs) = []"
    using assms(2) by (auto simp: filter_empty_conv)
  with assms(1) show ?thesis by (simp add: reassign_def Let_def)
qed

text \<open>
  Claim C9, as the code has it.  Let the update succeed and delete \<open>slug\<close>, and let the
  bookmark store list no bookmark twice in or across the folders found for the deleted
  categories.  The fallback is \<open>other\<close> if the new categories have it, else their first
  key (none if there is no key, or the key is empty); it is never the deleted slug.  The
  handler looks among the children of the parent folder for a folder titled with the
  display name stored for the category (emoji, space, name).  When it finds one, the
  record of every bookmark in that folder is rewritten by \<open>reassign\<close>: the slug leaves
  its category list, a primary that was the slug becomes the first remaining entry of
  that list or else the fallback, and the record is marked manual; so none of these
  records has the slug as primary afterwards, and one that named no other category has
  the fallback.  Every record of a bookmark outside the folders found stays as it was,
  the folders removed with \<open>removeTree\<close> are exactly the folders found, and the new
  categories are stored.  The answers of the bookmark store are those of one snapshot.
\<close>

theorem C9_taxonomy_deletion:
  assumes "updateUserCategories w newCats st = Inr (st', tr)"
    and "slug \<in> set (removed_slugs (userCategories st) newCats)"
    and "found = removed_folders w (userCategories st) (removed_slugs (userCategories st) newCats)"
    and "distinct (concat (map (\<lambda>(s, f). members w f) found))"
  shows "(map_of newCats ''other'' \<noteq> None \<longrightarrow> fallbackSlug newCats = Some ''other'')
       \<and> (map_of newCats ''other'' = None \<longrightarrow>
            fallbackSlug newCats =
              (case newCats of [] \<Rightarrow> None | (k, c) # r \<Rightarrow> if k = [] then None else Some k))
       \<and> fallbackSlug newCats \<noteq> Some slug
       \<and> (\<forall>f. (slug, f) \<in> set found \<longleftrightarrow>
              find_folder (getChildren w (smartParentId w)) (folderName (userCategories st) slug)
                = Some f)
       \<and> (\<forall>f. (slug, f) \<in> set found \<longrightarrow>
            (\<forall>j \<in> set (members w f).
               bookmarkMeta st' j
                 = map_option (reassign slug (fallbackSlug newCats)) (bookmarkMeta st j)
               \<and> (\<forall>m'. bookmarkMeta st' j = Some m' \<longrightarrow>
                     primary m' \<noteq> Some slug \<and> manual m'
                     \<and> (\<exists>cs. categories m' = Some cs \<and> slug \<notin> set cs))
               \<and> (\<forall>m. bookmarkMeta st j = Some m \<and> primary m = Some slug
                       \<and> (\<forall>c \<in> set (case categories m of None \<Rightarrow> [] | Some cs \<Rightarrow> cs). c = slug)
                     \<longrightarrow> map_option primary (bookmarkMeta st' j) = Some (fallbackSlug newCats))))
       \<and> (\<forall>j. (\<forall>p \<in> set found. j \<notin> set (members w (snd p)))
               \<longrightarrow> bookmarkMeta st' j = bookmarkMeta st j)
       \<and> (\<forall>f. BookmarksRemoveTree f \<in> set tr \<longleftrightarrow> f \<in> snd ` set found)
       \<and> userCategories st' = newCats"
proof -
  let ?fb = "fallbackSlug newCats"
  let ?rm = "removed_slugs (userCategories st) newCats"
  obtain mt tr0 where run: "remove_categories w st (userCategories st) ?fb
       (getChildren w (smartParentId w)) ?rm (bookmarkMeta st, []) = Inr (mt, tr0)"
    and st': "st' = st\<lparr>bookmarkMeta := mt, userCategories := newCats\<rparr>"
    and tr: "tr = tr0 @ [StorageSetMeta, StorageSetCategories]
                @ ensureUserCategoryFolders w (st\<lparr>bookmarkMeta := mt, userCategories := newCats\<rparr>)"
    using assms(1)
    by (auto simp: updateUserCategories_def Let_def split: sum.splits)
  from assms(3,4) have d: "distinct (concat (map (\<lambda>(s, f). members w f)
      (removed_folders w (userCategories st) ?rm)))" by simp
  from remove_categories_exact[OF run d] assms(3) have ex:
    "\<forall>p \<in> set found. \<forall>j \<in> set (members w (snd p)).
        mt j = map_option (reassign (fst p) ?fb) (bookmarkMeta st j)"
    "\<forall>j. (\<forall>p \<in> set found. j \<notin> set (members w (snd p))) \<longrightarrow> mt j = bookmarkMeta st j"
    "\<forall>f. BookmarksRemoveTree f \<in> set tr0 \<longleftrightarrow> f \<in> snd ` set found"
    by simp_all
  have nfb: "?fb \<noteq> Some slug" by (rule removed_not_fallback[OF assms(2)])
  have f1: "map_of newCats ''other'' \<noteq> None \<longrightarrow> ?fb = Some ''other''"
    by (simp add: fallbackSlug_def has_truthy_def)
  have f2: "map_of newCats ''other'' = None \<longrightarrow>
            ?fb = (case newCats of [] \<Rightarrow> None | (k, c) # r \<Rightarrow> if k = [] then None else Some k)"
    by (cases newCats) (auto simp: fallbackSlug_def has_truthy_def Object_prototype_names_def)
  have c4: "\<forall>f. (slug, f) \<in> set found \<longleftrightarrow>
              find_folder (getChildren w (smartParentId w)) (folderName (userCategories st) slug)
                = Some f"
    using assms(2,3) by (simp add: removed_folders_member)
  have c5: "\<forall>f. (slug, f) \<in> set found \<longrightarrow>
            (\<forall>j \<in> set (members w f).
               bookmarkMeta st' j = map_option (reassign slug ?fb) (bookmarkMeta st j)
               \<and> (\<forall>m'. bookmarkMeta st' j = Some m' \<longrightarrow>
                     primary m' \<noteq> Some slug \<and> manual m'
                     \<and> (\<exists>cs. categories m' = Some cs \<and> slug \<notin> set cs))
               \<and> (\<forall>m. bookmarkMeta st j = Some m \<and> primary m = Some slug
                       \<and> (\<forall>c \<in> set (case categories m of None \<Rightarrow> [] | Some cs \<Rightarrow> cs). c = slug)
                     \<longrightarrow> map_option primary (bookmarkMeta st' j) = Some ?fb))"
  proof (intro allI impI ballI)
    fix f j assume sf: "(slug, f) \<in> set found" and j: "j \<in> set (members w f)"
    from ex(1) sf j st' have eq: "bookmarkMeta st' j = map_option (reassign slug ?fb) (bookmarkMeta st j)"
      by force
    have det: "\<forall>m'. bookmarkMeta st' j = Some m' \<longrightarrow>
                     primary m' \<noteq> Some slug \<and> manual m'
                     \<and> (\<exists>cs. categories m' = Some cs \<and> slug \<notin> set cs)"
    proof (intro allI impI)
      fix m' assume "bookmarkMeta st' j = Some m'"
      with eq obtain m where "m' = reassign slug ?fb m"
        by (cases "bookmarkMeta st j") auto
      with reassign_detaches[OF nfb, of m] show "primary m' \<noteq> Some slug \<and> manual m'
                     \<and> (\<exists>cs. categories m' = Some cs \<and> slug \<notin> set cs)"
        by (auto simp: detached_def split: option.splits)
    qed
    have fbp: "\<forall>m. bookmarkMeta st j = Some m \<and> primary m = Some slug
                       \<and> (\<forall>c \<in> set (case categories m of None \<Rightarrow> [] | Some cs \<Rightarrow> cs). c = slug)
                     \<longrightarrow> map_option primary (bookmarkMeta st' j) = Some ?fb"
      using eq by (auto simp: reassign_only_slug)
    from eq det fbp show "bookmarkMeta st' j = map_option (reassign slug ?fb) (bookmarkMeta st j)
               \<and> (\<forall>m'. bookmarkMeta st' j = Some m' \<longrightarrow>
                     primary m' \<noteq> Some slug \<and> manual m'
                     \<and> (\<exists>cs. categories m' = Some cs \<and> slug \<notin> set cs))
               \<and> (\<forall>m. bookmarkMeta st j = Some m \<and> primary m = Some slug
                       \<and> (\<forall>c \<in> set (case categories m of None \<Rightarrow> [] | Some cs \<Rightarrow> cs). c = slug)
                     \<longrightarrow> map_option primary (bookmarkMeta st' j) = Some ?fb)"
      by blast
  qed
  have c6: "\<forall>j. (\<forall>p \<in> set found. j \<notin> set (members w (snd p)))
               \<longrightarrow> bookmarkMeta st' j = bookmarkMeta st j"
    using ex(2) st' by simp
  have c7: "\<forall>f. BookmarksRemoveTree f \<in> set tr \<longleftrightarrow> f \<in> snd ` set found"
    using ex(3) tr ensure_folders_no_removal by simp
  have c8: "userCategories st' = newCats" using st' by simp
  from f1 f2 nfb c4 c5 c6 c7 c8 show ?thesis by blast
qed

text \<open>
  The claim as stated fails for a record outside the folder: the handler walks the
  bookmarks in the folder of the removed category only, so the record of the original
  bookmark 5, which the clone strategy left on the bookmarks bar, keeps \<open>docs\<close> as its
  primary category after \<open>docs\<close> is deleted.
\<close>

theorem C9_record_outside_folder_counterexample:
  "''docs'' \<in> set (removed_slugs (userCategories taxonomy_storage) taxonomy_newCats)
   \<and> (case updateUserCategories taxonomy_world taxonomy_newCats taxonomy_storage of
        Inl e \<Rightarrow> None
      | Inr (st', tr) \<Rightarrow> map_option primary (bookmarkMeta st' 5)) = Some (Some ''docs'')"
  by code_simp

text \<open>
  Why the folder may be missing: a category that a job creates is stored with the folder
  emoji, while the folder the job asked for, before the category was stored, is titled
  with the plain name; the update then looks for a title that no folder has.
\<close>

lemma new_category_folder_not_found:
  "map fst (userCategories (store (snd (startOrganize (example_world tree_two_bookmarks)
       (fresh_engine empty_storage))))) = [''other'']
   \<and> folderName (userCategories empty_storage) ''other'' = ''Other''
   \<and> folderName (userCategories (store (snd (startOrganize (example_world tree_two_bookmarks)
         (fresh_engine empty_storage))))) ''other'' = FOLDER_EMOJI @ '' Other''
   \<and> find_folder [folder 20 (Some 10) ''Other'' []]
         (folderName (userCategories (store (snd (startOrganize
            (example_world tree_two_bookmarks) (fresh_engine empty_storage))))) ''other'')
       = None"
  by code_simp

theorem C9_taxonomy_deletion_witness:
  "\<exists>st' tr. updateUserCategories taxonomy_world taxonomy_newCats taxonomy_storage = Inr (st', tr)
     \<and> BookmarksRemoveTree 11 \<in> set tr
     \<and> (\<exists>m'. bookmarkMeta st' 12 = Some m' \<and> primary m' = Some ''other'' \<and> manual m')
     \<and> bookmarkMeta st' 5 = bookmarkMeta taxonomy_storage 5"
proof -
  let ?upd = "updateUserCategories taxonomy_world taxonomy_newCats taxonomy_storage"
  let ?rm = "removed_slugs (userCategories taxonomy_storage) taxonomy_newCats"
  have ev: "(case ?upd of Inl e \<Rightarrow> False | Inr p \<Rightarrow> True)" by code_simp
  then obtain st' tr where r: "?upd = Inr (st', tr)" by (auto split: sum.splits)
  have rm: "''docs'' \<in> set ?rm" by code_simp
  have fd: "removed_folders taxonomy_world (userCategories taxonomy_storage) ?rm = [(''docs'', 11)]"
    by code_simp
  have mb: "members taxonomy_world 11 = [12]" by code_simp
  have di: "distinct (concat (map (\<lambda>(s, f). members taxonomy_world f) [(''docs'', 11)]))"
    using mb by simp
  have fb: "fallbackSlug taxonomy_newCats = Some ''other''" by code_simp
  have old: "bookmarkMeta taxonomy_storage 12
      = Some (emptyMeta\<lparr>primary := Some ''docs'', description := Some [], organized := True,
                   clonedFrom := Some 5\<rparr>)"
    by (simp add: taxonomy_storage_def empty_storage_def)
  note t = C9_taxonomy_deletion[OF r rm fd[symmetric] di]
  from t mb have rt: "BookmarksRemoveTree 11 \<in> set tr" by simp
  from t mb fb old have m12: "\<exists>m'. bookmarkMeta st' 12 = Some m' \<and> primary m' = Some ''other'' \<and> manual m'"
    by (simp add: reassign_def emptyMeta_def)
  from t mb have m5: "bookmarkMeta st' 5 = bookmarkMeta taxonomy_storage 5" by simp
  from r rt m12 m5 show ?thesis by blast
qed

section \<open>Manual overrides and the organization job\<close>



lemma update_stats_fields:
  "meta (update_stats wa slug bm e) = meta e"
  "store (update_stats wa slug bm e) = store e"
  "orgState (update_stats wa slug bm e) = orgState e"
  "trace (update_stats wa slug bm e) = trace e"
  "cats (update_stats wa slug bm e) = cats e"
  by (simp_all add: update_stats_def Let_def split: option.splits)









lemma pause_quiet: "\<not> reset_in_pause w k \<Longrightarrow> pause w k e = e"
  by (simp add: pause_def)































section \<open>Cancellation and progress\<close>

lemma finish_job_move:
  assumes "s \<noteq> ''clone''"
  shows "finish_job w s e =
     e\<lparr>orgState := (orgState e)\<lparr>status := Done, completedAt := Some (date_now w)\<rparr>,
       organizationStats := (organizationStats e)
          \<lparr>categoriesCreated := length (stat_categories (organizationStats e))\<rparr>,
       store := (store e)
          \<lparr>bookmarkMeta := meta e, userCategories := cats e,
           org_state := Some ((orgState e)\<lparr>status := Done, completedAt := Some (date_now w)\<rparr>),
           organize_progress := Some (progress Done (total (orgState e)) (total (orgState e))),
           organization_stats := Some ((organizationStats e)
              \<lparr>categoriesCreated := length (stat_categories (organizationStats e))\<rparr>)\<rparr>,
       trace := trace e @
         [StorageSetMeta,
          SaveOrgState ((orgState e)\<lparr>status := Done, completedAt := Some (date_now w)\<rparr>),
          BroadcastProgress (progress Done (total (orgState e)) (total (orgState e))),
          StorageSetStats]\<rparr>"
  using assms
  by (simp add: finish_job_def Let_def saveStats_def saveOrgState_def broadcastProgress_def)

lemma finish_job_clone:
  assumes "removeDuplicatesFromSmartBookmarks w (tree_at_dedupe w)
             ((store e)\<lparr>bookmarkMeta := meta e, userCategories := cats e,
                organize_progress := Some ((progress Running (total (orgState e)) (total (orgState e)))
                   \<lparr>p_message := Some ''Removing duplicates...''\<rparr>)\<rparr>) = (r, st', trd)"
  shows "finish_job w ''clone'' e =
     e\<lparr>orgState := (orgState e)\<lparr>status := Done, completedAt := Some (date_now w)\<rparr>,
       organizationStats := (organizationStats e)
          \<lparr>categoriesCreated := length (stat_categories (organizationStats e))\<rparr>,
       store := st'
          \<lparr>org_state := Some ((orgState e)\<lparr>status := Done, completedAt := Some (date_now w)\<rparr>),
           organize_progress := Some (progress Done (total (orgState e)) (total (orgState e))),
           organization_stats := Some ((organizationStats e)
              \<lparr>categoriesCreated := length (stat_categories (organizationStats e))\<rparr>)\<rparr>,
       trace := trace e @
         [StorageSetMeta,
          BroadcastProgress ((progress Running (total (orgState e)) (total (orgState e)))
             \<lparr>p_message := Some ''Removing duplicates...''\<rparr>)] @ trd @
         [SaveOrgState ((orgState e)\<lparr>status := Done, completedAt := Some (date_now w)\<rparr>),
          BroadcastProgress (progress Done (total (orgState e)) (total (orgState e))),
          StorageSetStats]\<rparr>"
  using assms
  by (simp add: finish_job_def Let_def saveStats_def saveOrgState_def broadcastProgress_def)

lemma reconciler_run:
  assumes "removeDuplicatesFromSmartBookmarks w tree st = (r, st', tr)"
    and "duplicatesToRemove w (filter (in_smart w) (getAllBookmarksFlat tree)) = (found, toRemove)"
  shows "\<exists>n. remove_all w toRemove (0, st, []) = (n, st', tr)"
proof -
  obtain n a b where ra: "remove_all w toRemove (0, st, []) = (n, a, b)"
    by (cases "remove_all w toRemove (0, st, [])")
  from assms ra have "st' = a" "tr = b"
    by (simp_all add: removeDuplicatesFromSmartBookmarks_def Let_def)
  with ra show ?thesis by simp
qed

text \<open>
  Claim C3, as the code has it.  Let the loop arrive at an item in a state \<open>e\<close> whose
  status is not \<open>running\<close>, as a reset handled in the pause that ends the item before
  leaves it.  Then the loop ends there: it only logs the cancellation; no item is
  classified or placed, the metadata, the categories, the stats, the job state and the
  storage are the ones it found, and nothing is saved or broadcast for the remaining
  items.  What follows the loop still runs, and these are all its effects, in this
  order: the metadata and the categories gathered so far are persisted; for the clone
  strategy the duplicate pass is announced by a progress message and run, which removes
  the duplicates it marks among the direct children of the parent folder and deletes
  their stored records; the job state is saved with status \<open>done\<close>; the final progress
  message is broadcast; the stats are saved.  Afterwards every record gathered before
  the cancellation is stored as it was, except those of the bookmarks the duplicate
  pass removed, which are gone.
\<close>

theorem C3_cancellation_stops_items:
  assumes "status (orgState e) \<noteq> Running"
    and "ec = process_items w strategy weekAgo i (bm # rest) e"
    and "fin = finish_job w strategy ec"
    and "closed = (orgState e)\<lparr>status := Done, completedAt := Some (date_now w)\<rparr>"
    and "announce = (progress Running (total (orgState e)) (total (orgState e)))
                      \<lparr>p_message := Some ''Removing duplicates...''\<rparr>"
    and "final = progress Done (total (orgState e)) (total (orgState e))"
    and "removeDuplicatesFromSmartBookmarks w (tree_at_dedupe w)
           ((store e)\<lparr>bookmarkMeta := meta e, userCategories := cats e,
              organize_progress := Some announce\<rparr>) = (r, st', trd)"
    and "duplicatesToRemove w (filter (in_smart w) (getAllBookmarksFlat (tree_at_dedupe w)))
           = (found, toRemove)"
  shows "trace ec = trace e @ [ConsoleLog ''Organization cancelled'']
       \<and> meta ec = meta e \<and> cats ec = cats e \<and> organizationStats ec = organizationStats e
       \<and> orgState ec = orgState e \<and> store ec = store e
       \<and> trace fin = trace ec @ [StorageSetMeta]
            @ (if strategy = ''clone'' then BroadcastProgress announce # trd else [])
            @ [SaveOrgState closed, BroadcastProgress final, StorageSetStats]
       \<and> (\<forall>ev \<in> set trd. \<exists>d \<in> set toRemove. bookmarks_remove w (b_id d)
              \<and> (ev = BookmarksRemove (b_id d) \<or> ev = StorageDeleteMeta (b_id d)))
       \<and> (\<forall>d \<in> set toRemove. bookmarks_remove w (b_id d) \<longrightarrow> BookmarksRemove (b_id d) \<in> set trd)
       \<and> (\<forall>j. bookmarkMeta (store fin) j =
                (if strategy = ''clone'' \<and> (\<exists>d \<in> set toRemove. b_id d = j \<and> bookmarks_remove w j)
                 then None else meta e j))
       \<and> userCategories (store fin) = cats e
       \<and> org_state (store fin) = Some closed
       \<and> organize_progress (store fin) = Some final
       \<and> organization_stats (store fin) = Some (organizationStats fin)
       \<and> organizationStats fin = (organizationStats e)
            \<lparr>categoriesCreated := length (stat_categories (organizationStats e))\<rparr>
       \<and> orgState fin = closed"
proof -
  have ec: "ec = e\<lparr>trace := trace e @ [ConsoleLog ''Organization cancelled'']\<rparr>"
    using assms(1,2) by simp
  have a: "trace ec = trace e @ [ConsoleLog ''Organization cancelled'']"
    "meta ec = meta e" "cats ec = cats e" "organizationStats ec = organizationStats e"
    "orgState ec = orgState e" "store ec = store e"
    using ec by simp_all
  let ?S = "(store e)\<lparr>bookmarkMeta := meta e, userCategories := cats e,
              organize_progress := Some announce\<rparr>"
  from reconciler_run[OF assms(7,8)] obtain n where
    ra: "remove_all w toRemove (0, ?S, []) = (n, st', trd)" by blast
  from remove_all_events[OF ra] have ev: "\<forall>ev \<in> set trd. \<exists>d \<in> set toRemove.
      bookmarks_remove w (b_id d)
        \<and> (ev = BookmarksRemove (b_id d) \<or> ev = StorageDeleteMeta (b_id d))"
    by simp
  have rm: "\<forall>d \<in> set toRemove. bookmarks_remove w (b_id d) \<longrightarrow> BookmarksRemove (b_id d) \<in> set trd"
    using remove_all_exact[OF ra, of 0] by simp
  have mt: "\<And>j. bookmarkMeta st' j =
      (if \<exists>d \<in> set toRemove. b_id d = j \<and> bookmarks_remove w j then None else meta e j)"
    using remove_all_exact[OF ra] by simp
  have rest: "userCategories st' = cats e"
    using remove_all_rest[OF ra] by simp
  show ?thesis
  proof (cases "strategy = ''clone''")
    case False
    have fin: "fin = finish_job w strategy ec" by (rule assms(3))
    show ?thesis
      unfolding fin finish_job_move[OF False]
      using a ev rm False assms(4,6) by simp
  next
    case True
    have rd: "removeDuplicatesFromSmartBookmarks w (tree_at_dedupe w)
             ((store ec)\<lparr>bookmarkMeta := meta ec, userCategories := cats ec,
                organize_progress := Some ((progress Running (total (orgState ec)) (total (orgState ec)))
                   \<lparr>p_message := Some ''Removing duplicates...''\<rparr>)\<rparr>) = (r, st', trd)"
      using assms(7) a assms(5) by simp
    have fin: "fin = finish_job w ''clone'' ec" using assms(3) True by simp
    show ?thesis
      unfolding fin finish_job_clone[OF rd]
      using a ev rm mt rest True assms(4,5,6) by simp
  qed
qed

text \<open>
  The claim as stated fails: in a run over twelve bookmarks that is reset in the pause
  before its last item, the cancellation is observed and then the metadata is
  persisted, two progress messages are broadcast, the job state is saved as \<open>done\<close>
  and the stats are saved.
\<close>

theorem C3_writes_after_cancellation_counterexample:
  "filter is_write
     (tl (dropWhile (\<lambda>ev. ev \<noteq> ConsoleLog ''Organization cancelled'')
            (trace (snd (startOrganize cancelling_world (fresh_engine empty_storage))))))
   = [StorageSetMeta,
      BroadcastProgress ((progress Running 0 0)\<lparr>p_message := Some ''Removing duplicates...''\<rparr>),
      SaveOrgState (idle_state\<lparr>status := Done, completedAt := Some 1000000000000\<rparr>),
      BroadcastProgress (progress Done 0 0),
      StorageSetStats]"
  by code_simp

theorem C3_cancellation_stops_items_witness:
  "pause cancelling_clone_world 10 gathered_engine = resetOrganizeState gathered_engine
   \<and> trace (finish_job cancelling_clone_world ''clone''
            (process_items cancelling_clone_world ''clone'' 0 11 [pending_item]
               (pause cancelling_clone_world 10 gathered_engine)))
     = trace (resetOrganizeState gathered_engine) @
         [ConsoleLog ''Organization cancelled'',
          StorageSetMeta,
          BroadcastProgress ((progress Running 0 0)\<lparr>p_message := Some ''Removing duplicates...''\<rparr>),
          BookmarksRemove 13,
          StorageDeleteMeta 13,
          SaveOrgState (idle_state\<lparr>status := Done, completedAt := Some 1000000000000\<rparr>),
          BroadcastProgress (progress Done 0 0),
          StorageSetStats]
   \<and> bookmarkMeta (store (finish_job cancelling_clone_world ''clone''
            (process_items cancelling_clone_world ''clone'' 0 11 [pending_item]
               (pause cancelling_clone_world 10 gathered_engine)))) 13
       = None
   \<and> bookmarkMeta (store (finish_job cancelling_clone_world ''clone''
            (process_items cancelling_clone_world ''clone'' 0 11 [pending_item]
               (pause cancelling_clone_world 10 gathered_engine)))) 12
       = meta gathered_engine 12"
proof -
  let ?w = "cancelling_clone_world"
  let ?e0 = "resetOrganizeState gathered_engine"
  let ?announce = "(progress Running (total (orgState ?e0)) (total (orgState ?e0)))
                      \<lparr>p_message := Some ''Removing duplicates...''\<rparr>"
  let ?S = "(store ?e0)\<lparr>bookmarkMeta := meta ?e0, userCategories := cats ?e0,
              organize_progress := Some ?announce\<rparr>"
  let ?d13 = "\<lparr>b_id = 13, b_title = ''Page'', b_url = ''https://example.com/page'',
          b_parentId = Some 10, b_dateAdded = Some 200, b_path = [SMART_PARENT]\<rparr>"
  have p: "pause ?w 10 gathered_engine = ?e0"
    by (simp add: pause_def cancelling_clone_world_def cancelling_world_def)
  have h: "status (orgState ?e0) \<noteq> Running"
    by (simp add: resetOrganizeState_def Let_def saveOrgState_def broadcastProgress_def
        idle_state_def)
  obtain r st' trd where run:
    "removeDuplicatesFromSmartBookmarks ?w (tree_at_dedupe ?w) ?S = (r, st', trd)"
    by (cases "removeDuplicatesFromSmartBookmarks ?w (tree_at_dedupe ?w) ?S")
  have "snd (snd (removeDuplicatesFromSmartBookmarks ?w (tree_at_dedupe ?w) ?S))
      = [BookmarksRemove 13, StorageDeleteMeta 13]"
    by code_simp
  with run have trd: "trd = [BookmarksRemove 13, StorageDeleteMeta 13]" by simp
  have dup: "duplicatesToRemove ?w (filter (in_smart ?w) (getAllBookmarksFlat (tree_at_dedupe ?w)))
      = (2, [?d13])"
    by code_simp
  have rmv: "bookmarks_remove ?w 13"
    by (simp add: cancelling_clone_world_def cancelling_world_def example_world_def
        web.extend_def)
  have tot: "total (orgState ?e0) = 0" "orgState ?e0 = idle_state" "meta ?e0 = meta gathered_engine"
    by (simp_all add: resetOrganizeState_def Let_def saveOrgState_def broadcastProgress_def
        idle_state_def)
  have dn: "date_now ?w = 1000000000000"
    by (simp add: cancelling_clone_world_def cancelling_world_def example_world_def
        web.extend_def)
  note r = C3_cancellation_stops_items[where strategy = "''clone''" and weekAgo = 0 and i = 11
      and bm = pending_item and rest = "[]", OF h refl refl refl refl refl run dup]
  from r trd rmv tot dn p show ?thesis by simp
qed

text \<open>
  Claim C4.  A run with the clone strategy over two bookmarks whose clones the bookmark
  store refuses to create: the inner \<open>catch\<close> leaves each iteration with \<open>continue\<close>,
  before \<open>orgState.done\<close> is set, saved and broadcast.  The only progress messages are
  the initial one, the one announcing the duplicate pass and the final one; nothing is
  saved or broadcast after either item, and the job state is saved as \<open>done\<close> with
  \<open>done = 0\<close> of \<open>total = 2\<close>.
\<close>

theorem C4_failed_clone_skips_progress:
  "trace (snd (startOrganize clone_failing_world (fresh_engine empty_storage)))
   = [SaveOrgState
        \<lparr>status = Running, total = 2, done_count = 0, startedAt = Some 1000000000000,
         lastTitle = None, provider = ''local'', completedAt = None, error_message = None\<rparr>,
      BroadcastProgress (progress Running 0 2),
      StorageSetMeta,
      BroadcastProgress ((progress Running 2 2)\<lparr>p_message := Some ''Removing duplicates...''\<rparr>),
      SaveOrgState
        \<lparr>status = Done, total = 2, done_count = 0, startedAt = Some 1000000000000,
         lastTitle = None, provider = ''local'', completedAt = Some 1000000000000,
         error_message = None\<rparr>,
      BroadcastProgress (progress Done 2 2),
      StorageSetStats]"
  by code_simp

text \<open>
  What does hold of the progress messages of a run that nobody resets: they start with
  \<open>running, 0 of n\<close>, end with \<open>done, n of n\<close>, and their \<open>done\<close> values never decrease.
\<close>

lemma broadcasts_append: "broadcasts (a @ b) = broadcasts a @ broadcasts b"
  by (induction a rule: broadcasts.induct) simp_all

lemma organize_item_quiet:
  "organize_item w strategy wa k bm e = (out, e') \<Longrightarrow>
     orgState e' = orgState e \<and> broadcasts (trace e') = broadcasts (trace e)"
  by (auto simp: organize_item_def Let_def update_stats_fields broadcasts_append
      split: prod.splits sum.splits if_splits)

lemma update_progress_broadcast:
  "broadcasts (trace (update_progress k bm e))
     = broadcasts (trace e) @ [progress Running (k + 1) (total (orgState e))]
   \<and> total (orgState (update_progress k bm e)) = total (orgState e)
   \<and> status (orgState (update_progress k bm e)) = status (orgState e)"
  by (simp add: update_progress_def Let_def saveOrgState_def broadcastProgress_def
      broadcasts_append)

lemma step_item_broadcast:
  assumes "\<not> reset_in_pause w k"
  shows "(broadcasts (trace (step_item w s wa k bm e)) = broadcasts (trace e)
      \<or> broadcasts (trace (step_item w s wa k bm e))
           = broadcasts (trace e) @ [progress Running (k + 1) (total (orgState e))])
   \<and> total (orgState (step_item w s wa k bm e)) = total (orgState e)
   \<and> status (orgState (step_item w s wa k bm e)) = status (orgState e)"
proof -
  obtain out e' where o: "organize_item w s wa k bm e = (out, e')"
    by (cases "organize_item w s wa k bm e")
  from organize_item_quiet[OF o] have q: "orgState e' = orgState e"
    "broadcasts (trace e') = broadcasts (trace e)" by simp_all
  have mf: "\<And>err. orgState (mark_failed err bm e') = orgState e'
      \<and> trace (mark_failed err bm e') = trace e'"
    by (simp add: mark_failed_def Let_def)
  show ?thesis
  proof (cases out)
    case Completed
    with o q update_progress_broadcast[of k bm e'] show ?thesis
      by (simp add: step_item_def pause_quiet[OF assms])
  next
    case (Threw err)
    with o q mf[of err] update_progress_broadcast[of k bm "mark_failed err bm e'"]
    show ?thesis by (simp add: step_item_def pause_quiet[OF assms])
  next
    case CloneSkipped
    with o q show ?thesis by (simp add: step_item_def)
  qed
qed

lemma process_items_progress:
  assumes "\<forall>k. \<not> reset_in_pause w k" and "status (orgState e) = Running"
  shows "\<exists>ps. broadcasts (trace (process_items w s wa i items e)) = broadcasts (trace e) @ ps
       \<and> sorted (map p_done ps)
       \<and> (\<forall>p \<in> set ps. i < p_done p \<and> p_done p \<le> i + length items
              \<and> p_status p = Running \<and> p_total p = total (orgState e))
       \<and> total (orgState (process_items w s wa i items e)) = total (orgState e)
       \<and> status (orgState (process_items w s wa i items e)) = Running"
  using assms(2)
proof (induction items arbitrary: i e)
  case Nil
  then show ?case by simp
next
  case (Cons bm rest)
  let ?e1 = "step_item w s wa i bm e"
  from assms(1) Cons.prems have run: "process_items w s wa i (bm # rest) e
      = process_items w s wa (i + 1) rest ?e1"
    by (simp add: Let_def)
  from assms(1) have "\<not> reset_in_pause w i" by simp
  from step_item_broadcast[OF this, of s wa bm e] Cons.prems
  have st: "status (orgState ?e1) = Running" and tt: "total (orgState ?e1) = total (orgState e)"
    and br: "broadcasts (trace ?e1) = broadcasts (trace e)
      \<or> broadcasts (trace ?e1) = broadcasts (trace e) @ [progress Running (i + 1) (total (orgState e))]"
    by simp_all
  from Cons.IH[OF st, of "i + 1"] obtain ps where
    ps: "broadcasts (trace (process_items w s wa (i + 1) rest ?e1)) = broadcasts (trace ?e1) @ ps"
    and so: "sorted (map p_done ps)"
    and bd: "\<forall>p \<in> set ps. i + 1 < p_done p \<and> p_done p \<le> i + 1 + length rest
              \<and> p_status p = Running \<and> p_total p = total (orgState ?e1)"
    and t2: "total (orgState (process_items w s wa (i + 1) rest ?e1)) = total (orgState ?e1)"
    and s2: "status (orgState (process_items w s wa (i + 1) rest ?e1)) = Running"
    by blast
  from br show ?case
  proof
    assume "broadcasts (trace ?e1) = broadcasts (trace e)"
    with ps so bd t2 s2 tt run show ?thesis by auto
  next
    assume b: "broadcasts (trace ?e1)
        = broadcasts (trace e) @ [progress Running (i + 1) (total (orgState e))]"
    let ?ps = "progress Running (i + 1) (total (orgState e)) # ps"
    have 1: "broadcasts (trace (process_items w s wa i (bm # rest) e)) = broadcasts (trace e) @ ?ps"
      using run ps b by simp
    have 2: "sorted (map p_done ?ps)" using so bd by (auto simp: progress_def)
    have 3: "\<forall>p \<in> set ?ps. i < p_done p \<and> p_done p \<le> i + length (bm # rest)
              \<and> p_status p = Running \<and> p_total p = total (orgState e)"
      using bd tt by (auto simp: progress_def)
    from 1 2 3 t2 s2 tt run show ?thesis by auto
  qed
qed

lemma remove_all_quiet:
  "remove_all w ds (n, st, tr) = (n', st', tr') \<Longrightarrow> broadcasts tr' = broadcasts tr"
proof (induction ds arbitrary: n st tr)
  case Nil
  then show ?case by simp
next
  case (Cons d ds)
  show ?case
  proof (cases "bookmarks_remove w (b_id d)")
    case False
    with Cons.prems have "remove_all w ds (n, st, tr) = (n', st', tr')" by simp
    from Cons.IH[OF this] show ?thesis .
  next
    case True
    show ?thesis
    proof (cases "bookmarkMeta st (b_id d)")
      case None
      with True Cons.prems have
        "remove_all w ds (n + 1, st, tr @ [BookmarksRemove (b_id d)]) = (n', st', tr')" by simp
      from Cons.IH[OF this] show ?thesis by (simp add: broadcasts_append)
    next
      case (Some m)
      with True Cons.prems have
        "remove_all w ds (n + 1, st\<lparr>bookmarkMeta := (bookmarkMeta st)(b_id d := None)\<rparr>,
           tr @ [BookmarksRemove (b_id d), StorageDeleteMeta (b_id d)]) = (n', st', tr')" by simp
      from Cons.IH[OF this] show ?thesis by (simp add: broadcasts_append)
    qed
  qed
qed

lemma removeDuplicates_quiet:
  assumes "removeDuplicatesFromSmartBookmarks w tree st = (r, st', tr)"
  shows "broadcasts tr = []"
proof -
  obtain found toRemove where d: "duplicatesToRemove w (filter (in_smart w) (getAllBookmarksFlat tree))
      = (found, toRemove)" by (cases "duplicatesToRemove w (filter (in_smart w) (getAllBookmarksFlat tree))")
  obtain n a b where ra: "remove_all w toRemove (0, st, []) = (n, a, b)"
    by (cases "remove_all w toRemove (0, st, [])")
  from assms d ra have "tr = b"
    by (simp add: removeDuplicatesFromSmartBookmarks_def Let_def)
  with remove_all_quiet[OF ra] show ?thesis by simp
qed

lemma finish_job_broadcasts:
  "broadcasts (trace (finish_job w s e)) = broadcasts (trace e)
     @ (if s = ''clone''
        then [(progress Running (total (orgState e)) (total (orgState e)))
                \<lparr>p_message := Some ''Removing duplicates...''\<rparr>]
        else [])
     @ [progress Done (total (orgState e)) (total (orgState e))]"
proof (cases "s = ''clone''")
  case False
  then show ?thesis
    by (simp add: finish_job_def Let_def saveStats_def saveOrgState_def broadcastProgress_def
        broadcasts_append)
next
  case True
  let ?e1 = "e\<lparr>store := (store e)\<lparr>bookmarkMeta := meta e, userCategories := cats e\<rparr>,
                 trace := trace e @ [StorageSetMeta]\<rparr>"
  let ?b = "broadcastProgress
       ((progress Running (total (orgState ?e1)) (total (orgState ?e1)))
          \<lparr>p_message := Some ''Removing duplicates...''\<rparr>) ?e1"
  obtain r st' tr where d: "removeDuplicatesFromSmartBookmarks w (tree_at_dedupe w) (store ?b)
      = (r, st', tr)"
    by (cases "removeDuplicatesFromSmartBookmarks w (tree_at_dedupe w) (store ?b)")
  from removeDuplicates_quiet[OF d] True d show ?thesis
    by (simp add: finish_job_def Let_def saveStats_def saveOrgState_def broadcastProgress_def
        broadcasts_append)
qed

lemma progress_is_monotone:
  assumes "\<forall>k. \<not> reset_in_pause w k" and "status (orgState e) \<noteq> Running"
    and "init_error w = None" and "toProcess w \<noteq> []"
  shows "\<exists>ps. broadcasts (trace (snd (startOrganize w e)))
            = broadcasts (trace e) @ progress Running 0 (length (toProcess w)) # ps
              @ [progress Done (length (toProcess w)) (length (toProcess w))]
       \<and> sorted (0 # map p_done ps @ [length (toProcess w)])"
proof -
  let ?n = "length (toProcess w)"
  let ?strategy = "str_or (organize_strategy (store e)) ''clone''"
  let ?e1 = "saveOrgState
              (e\<lparr>orgState :=
                   \<lparr>status = Running, total = ?n, done_count = 0,
                    startedAt = Some (date_now w), lastTitle = None,
                    provider = str_or (classification_mode (store e)) ''local'',
                    completedAt = None, error_message = None\<rparr>\<rparr>)"
  let ?e2 = "broadcastProgress (progress Running 0 ?n) ?e1"
  let ?e3 = "?e2\<lparr>organizationStats := (organizationStats ?e2)
                   \<lparr>totalBookmarks := length (getAllBookmarksFlat (bookmark_tree w)),
                    stat_categories := [], recent := 0\<rparr>,
               meta := bookmarkMeta (store ?e2),
               cats := userCategories (store ?e2)\<rparr>"
  let ?wa = "date_now w - 7 * 24 * 60 * 60 * 1000"
  let ?e4 = "process_items w ?strategy ?wa 0 (toProcess w) ?e3"
  have res: "snd (startOrganize w e) = finish_job w ?strategy ?e4"
    using assms(2,3,4) by (simp add: startOrganize_def Let_def)
  have s3: "status (orgState ?e3) = Running" and t3: "total (orgState ?e3) = ?n"
    and b3: "broadcasts (trace ?e3) = broadcasts (trace e) @ [progress Running 0 ?n]"
    by (simp_all add: saveOrgState_def broadcastProgress_def broadcasts_append)
  from process_items_progress[OF assms(1) s3, of ?strategy ?wa 0 "toProcess w"]
  obtain ps where ps: "broadcasts (trace ?e4) = broadcasts (trace ?e3) @ ps"
    and so: "sorted (map p_done ps)"
    and bd: "\<forall>p \<in> set ps. p_done p \<le> ?n"
    and t4: "total (orgState ?e4) = ?n"
    using t3 by auto
  let ?mid = "(if ?strategy = ''clone''
        then [(progress Running ?n ?n)\<lparr>p_message := Some ''Removing duplicates...''\<rparr>]
        else [])"
  have fin: "broadcasts (trace (snd (startOrganize w e)))
      = broadcasts (trace e) @ progress Running 0 ?n # (ps @ ?mid) @ [progress Done ?n ?n]"
    unfolding res finish_job_broadcasts[of w ?strategy ?e4] t4 ps b3 by simp
  have "sorted (0 # map p_done (ps @ ?mid) @ [?n])"
    using so bd by (auto simp: sorted_append progress_def)
  with fin show ?thesis by blast
qed


end
